theory Spec2Isabelle
  imports Main "HOL-Library.Finite_Map" "HOL-Library.Char_ord" "HOL-Library.List_Lexorder"
begin

section \<open>Documents and schemas (schema/schema.go)\<close>

text \<open>
  A value of Go's \<open>interface{}\<close> is a \<open>val\<close>: \<open>VNil\<close> is the nil interface, \<open>VTombstone\<close>
  the marker \<open>schema.Tombstone\<close>, \<open>VMap\<close> a \<open>map[string]interface{}\<close> and \<open>VMapPtr\<close> a
  \<open>*map[string]interface{}\<close> (by the map it points to); the other constructors are scalars.
  A map with string keys is a finite map. Equality of \<open>val\<close> is \<open>reflect.DeepEqual\<close>, and
  the comparisons \<open>value == nil\<close> and \<open>value == Tombstone\<close> are equalities with \<open>VNil\<close> and
  \<open>VTombstone\<close>.
\<close>

datatype val =
    VNil
  | VTombstone
  | VBool bool
  | VInt int
  | VStr string
  | VMap "(string, val) fmap"
  | VMapPtr "(string, val) fmap"

type_synonym doc = "(string, val) fmap"

text \<open>An error item is a message or the error map of a sub-document.\<close>

datatype err_item = ErrStr string | ErrMap "(string, err_item list) fmap"

type_synonym errs = "(string, err_item list) fmap"

text \<open>
  The members of \<open>Field\<close> and \<open>Schema\<close> that \<open>Prepare\<close> and \<open>validate\<close> read. An absent
  validator, hook or nested schema is \<open>None\<close>; an absent default is the nil value. A
  validator returns the normalised value or an error message. \<open>Fields\<close> lists the fields
  by name; in a Go map the names are distinct. The types take the type of values as a
  parameter, for the store embedding below.
\<close>

datatype 'v field_of = MkField
    (Required: bool) (ReadOnly: bool) (Hidden: bool) (Default: 'v)
    (Validator: "('v \<Rightarrow> string + 'v) option")
    (OnInit: "('v \<Rightarrow> 'v) option") (OnUpdate: "('v \<Rightarrow> 'v) option")
    (Schema: "'v schema_of option")
and 'v schema_of = MkSchema (Fields: "(string \<times> 'v field_of) list") (MinLen: int) (MaxLen: int)

type_synonym field = "val field_of"

type_synonym schema = "val schema_of"

text \<open>\<open>len m\<close> is Go's \<open>len(m)\<close>; \<open>index m k\<close> is \<open>m[k]\<close>, nil for a missing key.\<close>

definition len :: "(string, 'v) fmap \<Rightarrow> int" where
  "len m = int (fcard (fmdom m))"

definition index :: "doc \<Rightarrow> string \<Rightarrow> val" where
  "index m k = (case fmlookup m k of None \<Rightarrow> VNil | Some v \<Rightarrow> v)"

text \<open>
  \<open>Prepare\<close> (lines 102 to 221). The body of \<open>for field, def := range s.Fields\<close> is, in
  the order of the source: the change and base entries of the field (\<open>prepare_value\<close>,
  lines 107 to 154), the recursion into a nested schema (lines 155 to 187, written in
  \<open>Prepare_fields\<close> itself), and the \<open>OnInit\<close> or \<open>OnUpdate\<close> hook (\<open>prepare_hook\<close>, lines
  188 to 211). \<open>Prepare_fields\<close> runs the body over the fields in the order of the list, and
  a \<open>range\<close> over a map runs over its entries in the order of the keys; Go leaves the
  order of a \<open>range\<close> over a map open, and the model fixes it. A panic is the left
  summand of the result; \<open>original\<close> is \<open>None\<close> for a nil pointer.
\<close>

definition prepare_value ::
  "string \<Rightarrow> field \<Rightarrow> doc \<Rightarrow> doc option \<Rightarrow> bool \<Rightarrow> doc \<times> doc \<Rightarrow> doc \<times> doc" where
  "prepare_value field def payload original replace cb =
     (case cb of (changes, base) \<Rightarrow>
        (case original of
           None \<Rightarrow>
             (case fmlookup payload field of
                None \<Rightarrow>
                  (changes, if Default def \<noteq> VNil then fmupd field (Default def) base else base)
              | Some value \<Rightarrow>
                  if value = VNil
                  then (changes, if Default def \<noteq> VNil then fmupd field (Default def) base else base)
                  else (fmupd field value changes, base))
         | Some orig \<Rightarrow>
             (let oFound = fmlookup orig field;
                  changes =
                    (case fmlookup payload field of
                       Some value \<Rightarrow>
                         (case Validator def of
                            Some v \<Rightarrow>
                              (case v value of
                                 Inl err \<Rightarrow> fmupd field value changes
                               | Inr validated \<Rightarrow>
                                   if oFound = None \<or> oFound \<noteq> Some validated
                                   then fmupd field validated changes else changes)
                          | None \<Rightarrow>
                              if oFound = None \<or> oFound \<noteq> Some value
                              then fmupd field value changes else changes)
                     | None \<Rightarrow>
                         (case oFound of
                            Some oValue \<Rightarrow>
                              if replace then
                                (if Hidden def \<and> \<not> ReadOnly def then fmupd field oValue changes
                                 else if Required def \<and> Default def \<noteq> VNil
                                 then fmupd field (Default def) changes
                                 else fmupd field VTombstone changes)
                              else changes
                          | None \<Rightarrow> changes))
              in (changes,
                  case oFound of Some oValue \<Rightarrow> fmupd field oValue base | None \<Rightarrow> base))))"

definition prepare_hook :: "string \<Rightarrow> field \<Rightarrow> doc option \<Rightarrow> doc \<times> doc \<Rightarrow> doc \<times> doc" where
  "prepare_hook field def original cb =
     (case cb of (changes, base) \<Rightarrow>
        (case (if original = None then OnInit def else OnUpdate def) of
           None \<Rightarrow> (changes, base)
         | Some hook \<Rightarrow>
             (case fmlookup changes field of
                Some value \<Rightarrow>
                  if value = VTombstone
                  then (fmdrop field changes, fmupd field (hook (index base field)) base)
                  else (fmupd field (hook value) changes, base)
              | None \<Rightarrow> (changes, fmupd field (hook (index base field)) base))))"

function (sequential)
  Prepare :: "schema \<Rightarrow> doc \<Rightarrow> doc option \<Rightarrow> bool \<Rightarrow> string + (doc \<times> doc)"
and Prepare_fields ::
  "(string \<times> field) list \<Rightarrow> doc \<Rightarrow> doc option \<Rightarrow> bool \<Rightarrow> doc \<times> doc \<Rightarrow> string + (doc \<times> doc)"
where
  "Prepare s payload original replace =
     (case Prepare_fields (Fields s) payload original replace (fmempty, fmempty) of
        Inl p \<Rightarrow> Inl p
      | Inr (changes, base) \<Rightarrow>
          Inr (fold (\<lambda>(field, value) changes.
                       if map_of (Fields s) field = None then fmupd field value changes else changes)
                 (sorted_list_of_fmap payload) changes, base))"
| "Prepare_fields [] payload original replace cb = Inr cb"
| "Prepare_fields ((field, def) # rest) payload original replace cb =
     (if original = None \<and> replace then Inl ''Cannot use replace=true without original''
      else
        let (changes, base) = prepare_value field def payload original replace cb in
        case
          (case Schema def of
             None \<Rightarrow> Inr (changes, base)
           | Some sub \<Rightarrow>
               (let subOriginal =
                      (case original of
                         None \<Rightarrow> None
                       | Some orig \<Rightarrow>
                           Some (case fmlookup orig field of
                                   Some (VMapPtr su) \<Rightarrow> su
                                 | _ \<Rightarrow> fmempty))
                in case fmlookup payload field of
                     Some value \<Rightarrow>
                       (case value of
                          VMap subPayload \<Rightarrow>
                            (case Prepare sub subPayload subOriginal replace of
                               Inl p \<Rightarrow> Inl p
                             | Inr (c, b) \<Rightarrow>
                                 Inr (fmupd field (VMap c) changes, fmupd field (VMap b) base))
                        | _ \<Rightarrow> Inr (changes, base))
                   | None \<Rightarrow>
                       (case Prepare sub fmempty subOriginal replace of
                          Inl p \<Rightarrow> Inl p
                        | Inr (c, b) \<Rightarrow>
                            if len c > 0 \<or> len b > 0
                            then Inr (fmupd field (VMap c) changes, fmupd field (VMap b) base)
                            else Inr (changes, base))))
        of
          Inl p \<Rightarrow> Inl p
        | Inr cb \<Rightarrow> Prepare_fields rest payload original replace (prepare_hook field def original cb))"
  by pat_completeness auto
termination
proof -
  have sub: "size sub < size d" if "Schema d = Some sub" for d :: field and sub
    using that by (cases d) simp
  have fs: "size_list (size_prod (\<lambda>_. 0) size) (Fields s) < size s" for s :: schema
    by (cases s) simp
  show ?thesis
    by (relation "measure (\<lambda>x. case x of
            Inl (s, _) \<Rightarrow> size s
          | Inr (fs, _) \<Rightarrow> size_list (size_prod (\<lambda>_. 0) size) fs)")
       (auto dest: sub simp: fs)
qed

text \<open>\<open>Sprintf_d\<close> is \<open>fmt.Sprintf("%d", i)\<close>.\<close>

function string_of_nat :: "nat \<Rightarrow> string" where
  "string_of_nat n =
     (if n < 10 then [char_of (48 + n)]
      else string_of_nat (n div 10) @ [char_of (48 + n mod 10)])"
  by pat_completeness auto
termination
  by (relation "measure id") auto

definition Sprintf_d :: "int \<Rightarrow> string" where
  "Sprintf_d i = (if i < 0 then CHR ''-'' # string_of_nat (nat (- i)) else string_of_nat (nat i))"

text \<open>
  \<open>validate\<close> (lines 230 to 338), with its first loop over the fields
  (\<open>validate_fields\<close>) and its last over the merged document (\<open>validate_doc\<close>). The
  method \<open>validateDependencies\<close> is not part of the file and is a parameter. A nil
  document is \<open>None\<close>. \<open>errs_index errs field\<close> is \<open>errs[field]\<close>, nil for a missing key.
\<close>

definition errs_index :: "errs \<Rightarrow> string \<Rightarrow> err_item list" where
  "errs_index errs field = (case fmlookup errs field of None \<Rightarrow> [] | Some l \<Rightarrow> l)"

definition addFieldError :: "errs \<Rightarrow> string \<Rightarrow> err_item \<Rightarrow> errs" where
  "addFieldError errs field err = fmupd field (errs_index errs field @ [err]) errs"

definition mergeFieldErrors :: "errs \<Rightarrow> errs \<Rightarrow> errs" where
  "mergeFieldErrors errs mergeErrs =
     fold (\<lambda>(field, values) errs. fmupd field (errs_index errs field @ values) errs)
       (sorted_list_of_fmap mergeErrs) errs"

type_synonym dependencies = "schema \<Rightarrow> doc \<Rightarrow> doc \<Rightarrow> string \<Rightarrow> errs"

function (sequential)
  validate :: "dependencies \<Rightarrow> schema \<Rightarrow> doc \<Rightarrow> doc \<Rightarrow> bool \<Rightarrow> doc option \<times> errs"
and validate_fields :: "dependencies \<Rightarrow> (string \<times> field) list \<Rightarrow> doc \<Rightarrow> doc \<Rightarrow> errs \<Rightarrow> errs"
and validate_doc ::
  "dependencies \<Rightarrow> schema \<Rightarrow> doc \<Rightarrow> doc \<Rightarrow> (string \<times> val) list \<Rightarrow> doc \<times> errs \<Rightarrow> doc \<times> errs"
where
  "validate validateDependencies s changes base isRoot =
     (let errs = validate_fields validateDependencies (Fields s) changes base fmempty;
          doc = fold (\<lambda>(field, value) doc. fmupd field value doc) (sorted_list_of_fmap base) fmempty;
          doc = fold (\<lambda>(field, value) doc.
                        if value = VTombstone then fmdrop field doc else fmupd field value doc)
                  (sorted_list_of_fmap changes) doc;
          errs = (if isRoot then mergeFieldErrors errs (validateDependencies s changes doc [])
                  else errs);
          (doc, errs) =
            validate_doc validateDependencies s changes base (sorted_list_of_fmap doc) (doc, errs);
          l = len doc
      in if l < MinLen s
         then (None, addFieldError errs []
                       (ErrStr (''has fewer properties than '' @ Sprintf_d (MinLen s))))
         else if MaxLen s > 0 \<and> l > MaxLen s
         then (None, addFieldError errs []
                       (ErrStr (''has more properties than '' @ Sprintf_d (MaxLen s))))
         else (Some doc, errs))"
| "validate_fields validateDependencies [] changes base errs = errs"
| "validate_fields validateDependencies ((field, def) # rest) changes base errs =
     (let errs =
            (if ReadOnly def then
               (case fmlookup changes field of
                  Some _ \<Rightarrow> addFieldError errs field (ErrStr ''read-only'')
                | None \<Rightarrow> errs)
             else errs);
          errs =
            (if Required def then
               (case fmlookup changes field of
                  Some value \<Rightarrow>
                    if value = VNil \<or> value = VTombstone
                    then addFieldError errs field (ErrStr ''required'') else errs
                | None \<Rightarrow>
                    (case fmlookup base field of
                       None \<Rightarrow> addFieldError errs field (ErrStr ''required'')
                     | Some value \<Rightarrow>
                         if value = VNil then addFieldError errs field (ErrStr ''required'')
                         else errs))
             else errs);
          errs =
            (case Schema def of
               None \<Rightarrow> errs
             | Some sub \<Rightarrow>
                 if fmlookup changes field = None \<and> fmlookup base field = None then
                   (let subErrs = snd (validate validateDependencies sub fmempty fmempty False)
                    in if len subErrs > 0 then addFieldError errs field (ErrMap subErrs) else errs)
                 else errs)
      in validate_fields validateDependencies rest changes base errs)"
| "validate_doc validateDependencies s changes base [] (doc, errs) = (doc, errs)"
| "validate_doc validateDependencies s changes base ((field, value) # rest) (doc, errs) =
     (let (doc, errs) =
        (case map_of (Fields s) field of
           None \<Rightarrow> (doc, addFieldError errs field (ErrStr ''invalid field''))
         | Some def \<Rightarrow>
             (case Schema def of
                Some sub \<Rightarrow>
                  (let (subChanges, errs) =
                         (case fmlookup changes field of
                            Some (VMap m) \<Rightarrow> (m, errs)
                          | Some _ \<Rightarrow> (fmempty, addFieldError errs field (ErrStr ''not a dict''))
                          | None \<Rightarrow> (fmempty, errs));
                       (subBase, errs) =
                         (case fmlookup base field of
                            Some (VMap m) \<Rightarrow> (m, errs)
                          | Some _ \<Rightarrow> (fmempty, addFieldError errs field (ErrStr ''not a dict''))
                          | None \<Rightarrow> (fmempty, errs));
                       (subDoc, subErrs) = validate validateDependencies sub subChanges subBase False
                   in if len subErrs > 0 then (doc, addFieldError errs field (ErrMap subErrs))
                      else (fmupd field (VMap (case subDoc of Some d \<Rightarrow> d | None \<Rightarrow> fmempty)) doc,
                            errs))
              | None \<Rightarrow>
                  (case Validator def of
                     Some v \<Rightarrow>
                       (case v value of
                          Inl err \<Rightarrow> (doc, addFieldError errs field (ErrStr err))
                        | Inr value \<Rightarrow> (fmupd field value doc, errs))
                   | None \<Rightarrow> (doc, errs))))
      in validate_doc validateDependencies s changes base rest (doc, errs))"
  by pat_completeness auto
termination
proof -
  have sub: "size sub < size d" if "Schema d = Some sub" for d :: field and sub
    using that by (cases d) simp
  have fs: "size_list (size_prod (\<lambda>_. 0) size) (Fields s) < size s" for s :: schema
    by (cases s) simp
  have look: "size d < Suc (size_list (size_prod (\<lambda>_. 0) size) fs)"
    if "map_of fs field = Some d" for fs :: "(string \<times> field) list" and field d
    using that by (induction fs) (auto split: if_splits)
  have look_sub: "size sub < size s"
    if "map_of (Fields s) field = Some d" and "Schema d = Some sub"
    for s :: schema and field d sub
    using look [OF that(1)] sub [OF that(2)] fs [of s] by simp
  show ?thesis
    by (relation "measures
          [\<lambda>x. case x of
              Inl (_, s, _) \<Rightarrow> size s
            | Inr (Inl (_, fs, _)) \<Rightarrow> size_list (size_prod (\<lambda>_. 0) size) fs
            | Inr (Inr (_, s, _)) \<Rightarrow> size s,
           \<lambda>x. case x of Inl _ \<Rightarrow> 1 | Inr _ \<Rightarrow> 0,
           \<lambda>x. case x of Inr (Inr (_, _, _, _, kvs, _)) \<Rightarrow> length kvs | _ \<Rightarrow> 0]")
       (auto dest: sub look_sub simp: fs)
qed

definition Validate :: "dependencies \<Rightarrow> schema \<Rightarrow> doc \<Rightarrow> doc \<Rightarrow> doc option \<times> errs" where
  "Validate validateDependencies s changes base = validate validateDependencies s changes base True"


section \<open>Request orchestrator (rest handlers)\<close>

datatype mode = Read | List | Create | Replace | Update | Delete | Clear

datatype error =
    nil
  | Error int string "errs option"
  | NotFoundError
  | InvalidMethodError
  | OtherError string

record item =
  ID :: val
  Etag :: string
  Updated :: int
  Payload :: doc

datatype 'l event =
    SetHeader string string
  | SendError error
  | Send int "doc option"
  | SendItem int "item option"
  | SendList "item list option"
  | CallFind 'l int int
  | CallInsert "item option list"
  | CallUpdate "item option" "item option"
  | CallDelete "item option"
  | CallClear 'l
  | Panic

record requestHandler =
  Method :: string
  Header_Get :: "string \<Rightarrow> string"
  Query_Get :: "string \<Rightarrow> string"
  URL_Path :: string
  skipBody :: bool
  decodePayload :: "doc \<times> error"
  checkIntegrityRequest :: "item option \<Rightarrow> error"
  checkReferences :: "doc option \<Rightarrow> schema \<Rightarrow> error"
  NewItem :: "doc option \<Rightarrow> item option \<times> error"
  time_Parse :: "string \<Rightarrow> int \<times> error"
  Sprintf_s :: "val \<Rightarrow> string"

record 'l route =
  route_fields :: "(string, val) fmap"
  lookup :: "'l \<times> error"
  applyFields :: "doc \<Rightarrow> doc"
  isModeAllowed :: "mode \<Rightarrow> bool"
  PaginationDefaultLimit :: int
  schema :: schema
  validateDependencies :: dependencies
  handler_Find :: "'l \<Rightarrow> int \<Rightarrow> int \<Rightarrow> item list option \<times> error"
  handler_Insert :: "item option list \<Rightarrow> error"
  handler_Update :: "item option \<Rightarrow> item option \<Rightarrow> error"
  handler_Delete :: "item option \<Rightarrow> error"
  handler_Clear :: "'l \<Rightarrow> int \<times> error"

definition ParseUint32 :: "string \<Rightarrow> int \<times> error" where
  "ParseUint32 s =
     (if s = [] \<or> \<not> list_all (\<lambda>c. CHR ''0'' \<le> c \<and> c \<le> CHR ''9'') s
      then (0, OtherError ''invalid syntax'')
      else let n = foldl (\<lambda>a c. 10 * a + (of_char c - 48)) (0::int) s
           in if n < 2 ^ 32 then (n, nil) else (2 ^ 32 - 1, OtherError ''value out of range''))"

fun Join :: "string list \<Rightarrow> string \<Rightarrow> string" where
  "Join [] sep = []"
| "Join [x] sep = x"
| "Join (x # xs) sep = x @ sep @ Join xs sep"

definition page_without_limit :: string where
  "page_without_limit =
     ''Cannot use '' @ [char_of (96::nat)] @ ''page'' @ [char_of (39::nat)] @ '' parameter with no '' @
     [char_of (96::nat)] @ ''limit'' @ [char_of (39::nat)] @
     '' paramter on a resource with no default pagination size''"

definition handleListRequestGET :: "requestHandler \<Rightarrow> 'l route \<Rightarrow> 'l event list" where
  "handleListRequestGET r route =
     (let find = (\<lambda>page perPage.
            let (lookup, err) = lookup route in
            if err \<noteq> nil then [SendError err]
            else CallFind lookup page perPage #
              (let (list, err) = handler_Find route lookup page perPage in
               if err \<noteq> nil then [SendError err] else [SendList list]))
      in
      if \<not> skipBody r then
        (let perPage = (if PaginationDefaultLimit route > 0 then PaginationDefaultLimit route else - 1);
             p = Query_Get r ''page'';
             (i, err) = ParseUint32 p
         in if p \<noteq> [] \<and> err \<noteq> nil
            then [SendError (Error 422 (''Invalid '' @ [char_of (96::nat)] @ ''page'' @ [char_of (96::nat)] @ '' paramter'') None)]
            else
              let page = (if p \<noteq> [] then i else 1);
                  l = Query_Get r ''limit'';
                  (i, err) = ParseUint32 l
              in if l \<noteq> [] \<and> err \<noteq> nil
                 then [SendError (Error 422 (''Invalid '' @ [char_of (96::nat)] @ ''limit'' @ [char_of (96::nat)] @ '' paramter'') None)]
                 else
                   let perPage = (if l \<noteq> [] then i else perPage)
                   in (if perPage = - 1 \<and> page \<noteq> 1
                       then [SendError (Error 422 page_without_limit None)] else [])
                      @ find page perPage)
      else find 1 0)"

definition handleListRequestPOST :: "requestHandler \<Rightarrow> 'l route \<Rightarrow> 'l event list" where
  "handleListRequestPOST r route =
     (let (payload, err) = decodePayload r in
      if err \<noteq> nil then [SendError err]
      else
        case Prepare (schema route) payload None False of
          Inl p \<Rightarrow> [Panic]
        | Inr (changes, base) \<Rightarrow>
            let base = applyFields route base;
                (doc, errs) = Validate (validateDependencies route) (schema route) changes base
            in if len errs > 0 then [SendError (Error 422 ''Document contains error(s)'' (Some errs))]
               else
                 let err = checkReferences r doc (schema route) in
                 if err \<noteq> nil then [SendError err]
                 else
                   let (item, err) = NewItem r doc in
                   if err \<noteq> nil then [SendError err]
                   else CallInsert [item] #
                     (let err = handler_Insert route [item] in
                      if err \<noteq> nil then [SendError err]
                      else
                        (case item of
                           None \<Rightarrow> [Panic]
                         | Some it \<Rightarrow>
                             [SetHeader ''Content-Location''
                                (''/'' @ URL_Path r @ ''/'' @ Sprintf_s r (ID it)),
                              SendItem 201 item])))"

definition handleListRequestDELETE :: "requestHandler \<Rightarrow> 'l route \<Rightarrow> 'l event list" where
  "handleListRequestDELETE r route =
     (let (lookup, err) = lookup route in
      (if err \<noteq> nil then [SendError err] else []) @
      CallClear lookup #
      (let (total, err) = handler_Clear route lookup in
       if err \<noteq> nil then [SendError err]
       else [SetHeader ''X-Total'' (Sprintf_d total), Send 204 (Some fmempty)]))"

definition handleItemRequestGET :: "requestHandler \<Rightarrow> 'l route \<Rightarrow> 'l event list" where
  "handleItemRequestGET r route =
     (let (lookup, err) = lookup route in
      (if err \<noteq> nil then [SendError err] else []) @
      CallFind lookup 1 1 #
      (let (l, err) = handler_Find route lookup 1 1 in
       if err \<noteq> nil then [SendError err]
       else
         case l of
           None \<Rightarrow> [Panic]
         | Some Items \<Rightarrow>
             if length Items = 0 then [SendError NotFoundError]
             else
               let item = hd Items in
               if Header_Get r ''If-None-Match'' = Etag item then [Send 304 None]
               else if Header_Get r ''If-Modified-Since'' \<noteq> [] then
                 (let (ifModTime, err) = time_Parse r (Header_Get r ''If-Modified-Since'') in
                  if err \<noteq> nil
                  then [SendError (Error 400 ''Invalid If-Modified-Since header'' None)]
                  else if Updated item = ifModTime \<or> Updated item < ifModTime
                  then [Send 304 None]
                  else [SendItem 200 (Some item)])
               else [SendItem 200 (Some item)]))"

definition doc_lookup :: "doc option \<Rightarrow> string \<Rightarrow> val option" where
  "doc_lookup doc k = (case doc of None \<Rightarrow> None | Some d \<Rightarrow> fmlookup d k)"

definition handleItemRequestPUT :: "requestHandler \<Rightarrow> 'l route \<Rightarrow> 'l event list" where
  "handleItemRequestPUT r route =
     (let (payload, derr) = decodePayload r in
      if derr \<noteq> nil then [SendError derr]
      else
        let (lookup, err) = lookup route in
        (if err \<noteq> nil then [SendError err] else []) @
        CallFind lookup 1 1 #
        (let (l, ferr) = handler_Find route lookup 1 1 in
         if ferr \<noteq> nil \<and> ferr \<noteq> NotFoundError then [SendError ferr]
         else
           case l of
             None \<Rightarrow> [Panic]
           | Some Items \<Rightarrow>
               let original = (if length Items = 1 then Some (hd Items) else None);
                   mode = (if original \<noteq> None then Replace else Create)
               in if \<not> isModeAllowed route mode then [SendError (Error 405 ''Invalid method'' None)]
                  else
                    let ierr = checkIntegrityRequest r original in
                    if ierr \<noteq> nil then [SendError ierr]
                    else
                      (case (case original of
                              None \<Rightarrow> Prepare (schema route) payload None False
                            | Some orig \<Rightarrow> Prepare (schema route) payload (Some (Payload orig)) True)
                      of
                        Inl p \<Rightarrow> [Panic]
                      | Inr (changes, base) \<Rightarrow>
                          let status = (if original = None then 201 else 200);
                              base = applyFields route base;
                              (doc, errs) =
                                Validate (validateDependencies route) (schema route) changes base
                          in if len errs > 0
                             then [SendError (Error 422 ''Document contains error(s)'' (Some errs))]
                             else
                               let rerr = checkReferences r doc (schema route) in
                               if rerr \<noteq> nil then [SendError rerr]
                               else if (case original of
                                          None \<Rightarrow> False
                                        | Some orig \<Rightarrow>
                                            (case doc_lookup doc ''id'' of
                                               None \<Rightarrow> False
                                             | Some idv \<Rightarrow> idv \<noteq> ID orig))
                               then [SendError (Error 422 ''Cannot change document ID'' None)]
                               else
                                 let (item, err2) = NewItem r doc in
                                 if err \<noteq> nil then [SendError err2]
                                 else if original \<noteq> None then
                                   CallUpdate item original #
                                   (let uerr = handler_Update route item original in
                                    if uerr \<noteq> nil then [SendError uerr]
                                    else [SendItem status item])
                                 else
                                   CallInsert [item] #
                                   (let uerr = handler_Insert route [item] in
                                    if uerr \<noteq> nil then [SendError uerr]
                                    else [SendItem status item]))))"

definition handleItemRequestPATCH :: "requestHandler \<Rightarrow> 'l route \<Rightarrow> 'l event list" where
  "handleItemRequestPATCH r route =
     (let (payload, derr) = decodePayload r in
      if derr \<noteq> nil then [SendError derr]
      else
        let (lookup, err) = lookup route in
        (if err \<noteq> nil then [SendError err] else []) @
        CallFind lookup 1 1 #
        (let (l, ferr) = handler_Find route lookup 1 1 in
         if ferr \<noteq> nil then [SendError ferr]
         else
           case l of
             None \<Rightarrow> [Panic]
           | Some Items \<Rightarrow>
               if length Items = 0 then [SendError NotFoundError]
               else
                 let original = hd Items;
                     ierr = checkIntegrityRequest r (Some original)
                 in if ierr \<noteq> nil then [SendError ierr]
                    else
                      (case Prepare (schema route) payload (Some (Payload original)) False of
                        Inl p \<Rightarrow> [Panic]
                      | Inr (changes, base) \<Rightarrow>
                          let base = applyFields route base;
                              (doc, errs) =
                                Validate (validateDependencies route) (schema route) changes base
                          in if len errs > 0
                             then [SendError (Error 422 ''Document contains error(s)'' (Some errs))]
                             else
                               let rerr = checkReferences r doc (schema route) in
                               if rerr \<noteq> nil then [SendError rerr]
                               else
                                 let (item, err2) = NewItem r doc in
                                 if err \<noteq> nil then [SendError err2]
                                 else
                                   CallUpdate item (Some original) #
                                   (let uerr = handler_Update route item (Some original) in
                                    if uerr \<noteq> nil then [SendError uerr]
                                    else [SendItem 200 item]))))"

definition handleItemRequestDELETE :: "requestHandler \<Rightarrow> 'l route \<Rightarrow> 'l event list" where
  "handleItemRequestDELETE r route =
     (let (lookup, err) = lookup route in
      (if err \<noteq> nil then [SendError err] else []) @
      CallFind lookup 1 1 #
      (let (l, ferr) = handler_Find route lookup 1 1 in
       if ferr \<noteq> nil then [SendError ferr]
       else
         case l of
           None \<Rightarrow> [Panic]
         | Some Items \<Rightarrow>
             if length Items = 0 then [SendError NotFoundError]
             else
               let original = hd Items;
                   ierr = checkIntegrityRequest r (Some original)
               in if ierr \<noteq> nil then [SendError ierr]
                  else
                    CallDelete (Some original) #
                    (let derr = handler_Delete route (Some original) in
                     if derr \<noteq> nil then [SendError derr]
                     else [Send 204 (Some fmempty)])))"

definition handleRoute :: "requestHandler \<Rightarrow> 'l route \<Rightarrow> 'l event list" where
  "handleRoute r route =
     (if fmlookup (route_fields route) ''id'' \<noteq> None then
        (if Method r = ''OPTIONS'' then
           (let methods = [];
                methods = (if isModeAllowed route Read then methods @ [''HEAD'', ''GET''] else methods);
                methods = (if isModeAllowed route Create \<or> isModeAllowed route Replace
                           then methods @ [''PUT''] else methods);
                (methods, hdr) =
                  (if isModeAllowed route Update
                   then (methods @ [''PATCH''], [SetHeader ''Allow-Patch'' ''application/json''])
                   else (methods, []));
                methods = (if isModeAllowed route Update then methods @ [''DELETE''] else methods)
            in hdr @ [SetHeader ''Allow'' (Join methods '', '')])
         else if Method r = ''HEAD'' \<or> Method r = ''GET'' then
           (if \<not> isModeAllowed route Read then [SendError InvalidMethodError]
            else handleItemRequestGET r route)
         else if Method r = ''PUT'' then
           (if \<not> isModeAllowed route Create \<and> \<not> isModeAllowed route Replace
            then [SendError InvalidMethodError]
            else handleItemRequestPUT r route)
         else if Method r = ''PATCH'' then
           (if \<not> isModeAllowed route Update then [SendError InvalidMethodError]
            else handleItemRequestPATCH r route)
         else if Method r = ''DELETE'' then
           (if \<not> isModeAllowed route Delete then [SendError InvalidMethodError]
            else handleItemRequestDELETE r route)
         else [SendError InvalidMethodError])
      else
        (if Method r = ''OPTIONS'' then
           (let methods = [];
                methods = (if isModeAllowed route List then methods @ [''HEAD'', ''GET''] else methods);
                methods = (if isModeAllowed route Create then methods @ [''POST''] else methods);
                methods = (if isModeAllowed route Clear then methods @ [''DELETE''] else methods)
            in [SetHeader ''Allow'' (Join methods '', '')])
         else if Method r = ''HEAD'' \<or> Method r = ''GET'' then
           (if \<not> isModeAllowed route List then [SendError InvalidMethodError]
            else handleListRequestGET r route)
         else if Method r = ''POST'' then
           (if \<not> isModeAllowed route Create then [SendError InvalidMethodError]
            else handleListRequestPOST r route)
         else if Method r = ''DELETE'' then
           (if \<not> isModeAllowed route Clear then [SendError InvalidMethodError]
            else handleListRequestDELETE r route)
         else [SendError InvalidMethodError]))"

definition example_schema :: schema where
  "example_schema = MkSchema [(''a'', MkField True False False VNil None None None None)] 1 2"

definition no_dependencies :: dependencies where
  "no_dependencies s changes doc path = fmempty"



subsection \<open>Example requests, routes and schemas\<close>

definition example_item :: item where
  "example_item =
     \<lparr>ID = VStr ''1'', Etag = ''E1'', Updated = 100, Payload = fmupd ''a'' (VInt 1) fmempty\<rparr>"

definition example_request :: requestHandler where
  "example_request =
     \<lparr>Method = ''GET'', Header_Get = (\<lambda>_. []), Query_Get = (\<lambda>_. []), URL_Path = ''users'',
      skipBody = False, decodePayload = (fmempty, nil), checkIntegrityRequest = (\<lambda>_. nil),
      checkReferences = (\<lambda>_ _. nil), NewItem = (\<lambda>_. (None, nil)),
      time_Parse = (\<lambda>_. (0, OtherError ''cannot parse'')), Sprintf_s = (\<lambda>_. [])\<rparr>"

definition example_route :: "nat route" where
  "example_route =
     \<lparr>route_fields = fmempty, lookup = (7, nil), applyFields = (\<lambda>base. base),
      isModeAllowed = (\<lambda>_. True), PaginationDefaultLimit = 0, schema = example_schema,
      validateDependencies = no_dependencies,
      handler_Find = (\<lambda>_ _ _. (Some [example_item], nil)), handler_Insert = (\<lambda>_. nil),
      handler_Update = (\<lambda>_ _. nil), handler_Delete = (\<lambda>_. nil),
      handler_Clear = (\<lambda>_. (3, nil))\<rparr>"

definition failed_lookup_route :: "nat route" where
  "failed_lookup_route = example_route\<lparr>lookup := (0, OtherError ''bad lookup'')\<rparr>"

definition item_route :: "(mode \<Rightarrow> bool) \<Rightarrow> nat route" where
  "item_route allowed =
     example_route\<lparr>route_fields := fmupd ''id'' (VStr ''1'') fmempty, isModeAllowed := allowed\<rparr>"


definition stale_date_request :: requestHandler where
  "stale_date_request =
     example_request\<lparr>Header_Get := (\<lambda>k. if k = ''If-Modified-Since'' then ''yesterday'' else [])\<rparr>"


definition empty_schema :: schema where
  "empty_schema = MkSchema [] 0 0"

definition nested_schema :: schema where
  "nested_schema =
     MkSchema
       [(''sub'', MkField False False False VNil None None None
           (Some (MkSchema [(''x'', MkField False False False VNil None None None None)] 0 0)))]
       0 0"

subsection \<open>Fields that an unchanged payload leaves alone\<close>









section \<open>The same code over a store of map objects\<close>

text \<open>
  A Go map is a reference: two values may denote the same map object, and an assignment
  \<open>m[k] = v\<close> is seen through every reference to \<open>m\<close>. To state which objects a call
  writes, \<open>Prepare\<close> and \<open>validate\<close> are given a second time with the maps held in a
  store: a value of map type is the address of its object, the store lists the objects by
  address, and a map literal allocates the next address. The objects of \<open>errors\<close> are
  the error maps. \<open>reflect.DeepEqual\<close> and \<open>validateDependencies\<close> are parameters that
  read the store; validators and hooks are functions of the value they are given.
\<close>

datatype rval =
    RNil
  | RTombstone
  | RBool bool
  | RInt int
  | RStr string
  | RMap nat
  | RMapPtr nat

datatype ritem = RErrStr string | RErrMap nat

record store =
  docs :: "(string, rval) fmap list"
  errors :: "(string, ritem list) fmap list"

definition doc_at :: "store \<Rightarrow> nat \<Rightarrow> (string, rval) fmap" where
  "doc_at h a = (if a < length (docs h) then docs h ! a else fmempty)"

definition errs_at :: "store \<Rightarrow> nat \<Rightarrow> (string, ritem list) fmap" where
  "errs_at h a = (if a < length (errors h) then errors h ! a else fmempty)"

definition new_doc :: "store \<Rightarrow> nat \<times> store" where
  "new_doc h = (length (docs h), h\<lparr>docs := docs h @ [fmempty]\<rparr>)"

definition new_errs :: "store \<Rightarrow> nat \<times> store" where
  "new_errs h = (length (errors h), h\<lparr>errors := errors h @ [fmempty]\<rparr>)"

definition store_field :: "nat \<Rightarrow> string \<Rightarrow> rval \<Rightarrow> store \<Rightarrow> store" where
  "store_field a field value h = h\<lparr>docs := (docs h)[a := fmupd field value (doc_at h a)]\<rparr>"

definition delete_field :: "nat \<Rightarrow> string \<Rightarrow> store \<Rightarrow> store" where
  "delete_field a field h = h\<lparr>docs := (docs h)[a := fmdrop field (doc_at h a)]\<rparr>"

definition rindex :: "(string, rval) fmap \<Rightarrow> string \<Rightarrow> rval" where
  "rindex m k = (case fmlookup m k of None \<Rightarrow> RNil | Some v \<Rightarrow> v)"

type_synonym deep_equal = "store \<Rightarrow> rval \<Rightarrow> rval \<Rightarrow> bool"

definition prepare_value_store ::
  "deep_equal \<Rightarrow> string \<Rightarrow> rval field_of \<Rightarrow> rval option \<Rightarrow> nat option \<Rightarrow> bool \<Rightarrow> nat \<Rightarrow> nat \<Rightarrow>
   store \<Rightarrow> store" where
  "prepare_value_store DeepEqual field def found original replace changes base h =
     (case original of
        None \<Rightarrow>
          (case found of
             None \<Rightarrow> if Default def \<noteq> RNil then store_field base field (Default def) h else h
           | Some value \<Rightarrow>
               if value = RNil
               then (if Default def \<noteq> RNil then store_field base field (Default def) h else h)
               else store_field changes field value h)
      | Some orig \<Rightarrow>
          (let oFound = fmlookup (doc_at h orig) field;
               h =
                 (case found of
                    Some value \<Rightarrow>
                      (case Validator def of
                         Some v \<Rightarrow>
                           (case v value of
                              Inl err \<Rightarrow> store_field changes field value h
                            | Inr validated \<Rightarrow>
                                (case oFound of
                                   None \<Rightarrow> store_field changes field validated h
                                 | Some oValue \<Rightarrow>
                                     if \<not> DeepEqual h validated oValue
                                     then store_field changes field validated h else h))
                       | None \<Rightarrow>
                           (case oFound of
                              None \<Rightarrow> store_field changes field value h
                            | Some oValue \<Rightarrow>
                                if \<not> DeepEqual h value oValue
                                then store_field changes field value h else h))
                  | None \<Rightarrow>
                      (case oFound of
                         Some oValue \<Rightarrow>
                           if replace then
                             (if Hidden def \<and> \<not> ReadOnly def then store_field changes field oValue h
                              else if Required def \<and> Default def \<noteq> RNil
                              then store_field changes field (Default def) h
                              else store_field changes field RTombstone h)
                           else h
                       | None \<Rightarrow> h))
           in case oFound of Some oValue \<Rightarrow> store_field base field oValue h | None \<Rightarrow> h))"

definition prepare_hook_store ::
  "string \<Rightarrow> rval field_of \<Rightarrow> nat option \<Rightarrow> nat \<Rightarrow> nat \<Rightarrow> store \<Rightarrow> store" where
  "prepare_hook_store field def original changes base h =
     (case (if original = None then OnInit def else OnUpdate def) of
        None \<Rightarrow> h
      | Some hook \<Rightarrow>
          (case fmlookup (doc_at h changes) field of
             Some value \<Rightarrow>
               if value = RTombstone
               then delete_field changes field
                      (store_field base field (hook (rindex (doc_at h base) field)) h)
               else store_field changes field (hook value) h
           | None \<Rightarrow> store_field base field (hook (rindex (doc_at h base) field)) h))"

function (sequential)
  Prepare_store ::
    "deep_equal \<Rightarrow> rval schema_of \<Rightarrow> nat \<Rightarrow> nat option \<Rightarrow> bool \<Rightarrow> store \<Rightarrow>
     (string + nat \<times> nat) \<times> store"
and Prepare_fields_store ::
    "deep_equal \<Rightarrow> (string \<times> rval field_of) list \<Rightarrow> nat \<Rightarrow> nat option \<Rightarrow> bool \<Rightarrow> nat \<Rightarrow> nat \<Rightarrow>
     store \<Rightarrow> string option \<times> store"
where
  "Prepare_store DeepEqual s payload original replace h =
     (let (changes, h) = new_doc h;
          (base, h) = new_doc h
      in case Prepare_fields_store DeepEqual (Fields s) payload original replace changes base h of
           (Some p, h) \<Rightarrow> (Inl p, h)
         | (None, h) \<Rightarrow>
             (Inr (changes, base),
              fold (\<lambda>(field, value) h.
                      if map_of (Fields s) field = None then store_field changes field value h else h)
                (sorted_list_of_fmap (doc_at h payload)) h))"
| "Prepare_fields_store DeepEqual [] payload original replace changes base h = (None, h)"
| "Prepare_fields_store DeepEqual ((field, def) # rest) payload original replace changes base h =
     (if original = None \<and> replace then (Some ''Cannot use replace=true without original'', h)
      else
        let found = fmlookup (doc_at h payload) field;
            h = prepare_value_store DeepEqual field def found original replace changes base h
        in
        case
          (case Schema def of
             None \<Rightarrow> (None, h)
           | Some sub \<Rightarrow>
               (let (subOriginal, h) =
                      (case original of
                         None \<Rightarrow> (None, h)
                       | Some orig \<Rightarrow>
                           (let (empty, h) = new_doc h
                            in (Some (case fmlookup (doc_at h orig) field of
                                        Some (RMapPtr su) \<Rightarrow> su
                                      | _ \<Rightarrow> empty), h)))
                in case found of
                     Some value \<Rightarrow>
                       (case value of
                          RMap subPayload \<Rightarrow>
                            (case Prepare_store DeepEqual sub subPayload subOriginal replace h of
                               (Inl p, h) \<Rightarrow> (Some p, h)
                             | (Inr (c, b), h) \<Rightarrow>
                                 (None, store_field base field (RMap b)
                                          (store_field changes field (RMap c) h)))
                        | _ \<Rightarrow> (None, h))
                   | None \<Rightarrow>
                       (let (empty, h) = new_doc h
                        in case Prepare_store DeepEqual sub empty subOriginal replace h of
                             (Inl p, h) \<Rightarrow> (Some p, h)
                           | (Inr (c, b), h) \<Rightarrow>
                               if len (doc_at h c) > 0 \<or> len (doc_at h b) > 0
                               then (None, store_field base field (RMap b)
                                             (store_field changes field (RMap c) h))
                               else (None, h))))
        of
          (Some p, h) \<Rightarrow> (Some p, h)
        | (None, h) \<Rightarrow>
            Prepare_fields_store DeepEqual rest payload original replace changes base
              (prepare_hook_store field def original changes base h))"
  by pat_completeness auto
termination
proof -
  have sub: "size sub < size d" if "Schema d = Some sub" for d :: "rval field_of" and sub
    using that by (cases d) simp
  have fs: "size_list (size_prod (\<lambda>_. 0) size) (Fields s) < size s" for s :: "rval schema_of"
    by (cases s) simp
  show ?thesis
    by (relation "measure (\<lambda>x. case x of
            Inl (_, s, _) \<Rightarrow> size s
          | Inr (_, fs, _) \<Rightarrow> size_list (size_prod (\<lambda>_. 0) size) fs)")
       (auto dest: sub simp: fs)
qed

declare Prepare_store.simps [simp del]

text \<open>The nested-schema part of the loop body of \<open>Prepare\<close>, named for the proofs.\<close>

definition prepare_sub_store ::
  "deep_equal \<Rightarrow> string \<Rightarrow> rval schema_of \<Rightarrow> rval option \<Rightarrow> nat option \<Rightarrow> bool \<Rightarrow> nat \<Rightarrow> nat \<Rightarrow>
   store \<Rightarrow> string option \<times> store" where
  "prepare_sub_store DeepEqual field sub found original replace changes base h =
               (let (subOriginal, h) =
                      (case original of
                         None \<Rightarrow> (None, h)
                       | Some orig \<Rightarrow>
                           (let (empty, h) = new_doc h
                            in (Some (case fmlookup (doc_at h orig) field of
                                        Some (RMapPtr su) \<Rightarrow> su
                                      | _ \<Rightarrow> empty), h)))
                in case found of
                     Some value \<Rightarrow>
                       (case value of
                          RMap subPayload \<Rightarrow>
                            (case Prepare_store DeepEqual sub subPayload subOriginal replace h of
                               (Inl p, h) \<Rightarrow> (Some p, h)
                             | (Inr (c, b), h) \<Rightarrow>
                                 (None, store_field base field (RMap b)
                                          (store_field changes field (RMap c) h)))
                        | _ \<Rightarrow> (None, h))
                   | None \<Rightarrow>
                       (let (empty, h) = new_doc h
                        in case Prepare_store DeepEqual sub empty subOriginal replace h of
                             (Inl p, h) \<Rightarrow> (Some p, h)
                           | (Inr (c, b), h) \<Rightarrow>
                               if len (doc_at h c) > 0 \<or> len (doc_at h b) > 0
                               then (None, store_field base field (RMap b)
                                             (store_field changes field (RMap c) h))
                               else (None, h)))"


definition ritems :: "(string, ritem list) fmap \<Rightarrow> string \<Rightarrow> ritem list" where
  "ritems errs field = (case fmlookup errs field of None \<Rightarrow> [] | Some l \<Rightarrow> l)"

definition addFieldError_store :: "nat \<Rightarrow> string \<Rightarrow> ritem \<Rightarrow> store \<Rightarrow> store" where
  "addFieldError_store errs field err h =
     h\<lparr>errors := (errors h)[errs := fmupd field (ritems (errs_at h errs) field @ [err]) (errs_at h errs)]\<rparr>"

definition mergeFieldErrors_store :: "nat \<Rightarrow> (string, ritem list) fmap \<Rightarrow> store \<Rightarrow> store" where
  "mergeFieldErrors_store errs mergeErrs h =
     fold (\<lambda>(field, values) h.
             h\<lparr>errors := (errors h)[errs :=
                  fmupd field (ritems (errs_at h errs) field @ values) (errs_at h errs)]\<rparr>)
       (sorted_list_of_fmap mergeErrs) h"

type_synonym dependencies_store =
  "store \<Rightarrow> rval schema_of \<Rightarrow> nat \<Rightarrow> nat \<Rightarrow> string \<Rightarrow> (string, ritem list) fmap"

function (sequential)
  validate_store ::
    "dependencies_store \<Rightarrow> rval schema_of \<Rightarrow> nat \<Rightarrow> nat \<Rightarrow> bool \<Rightarrow> store \<Rightarrow>
     (nat option \<times> nat) \<times> store"
and validate_fields_store ::
    "dependencies_store \<Rightarrow> (string \<times> rval field_of) list \<Rightarrow> nat \<Rightarrow> nat \<Rightarrow> nat \<Rightarrow> store \<Rightarrow> store"
and validate_doc_store ::
    "dependencies_store \<Rightarrow> rval schema_of \<Rightarrow> nat \<Rightarrow> nat \<Rightarrow> (string \<times> rval) list \<Rightarrow> nat \<Rightarrow> nat \<Rightarrow>
     store \<Rightarrow> store"
where
  "validate_store validateDeps s changes base isRoot h =
     (let (doc, h) = new_doc h;
          (errs, h) = new_errs h;
          h = validate_fields_store validateDeps (Fields s) changes base errs h;
          h = fold (\<lambda>(field, value) h. store_field doc field value h)
                (sorted_list_of_fmap (doc_at h base)) h;
          h = fold (\<lambda>(field, value) h.
                      if value = RTombstone then delete_field doc field h
                      else store_field doc field value h)
                (sorted_list_of_fmap (doc_at h changes)) h;
          h = (if isRoot
               then mergeFieldErrors_store errs (validateDeps h s changes doc []) h
               else h);
          h = validate_doc_store validateDeps s changes base
                (sorted_list_of_fmap (doc_at h doc)) doc errs h;
          l = len (doc_at h doc)
      in if l < MinLen s
         then ((None, errs),
               addFieldError_store errs []
                 (RErrStr (''has fewer properties than '' @ Sprintf_d (MinLen s))) h)
         else if MaxLen s > 0 \<and> l > MaxLen s
         then ((None, errs),
               addFieldError_store errs []
                 (RErrStr (''has more properties than '' @ Sprintf_d (MaxLen s))) h)
         else ((Some doc, errs), h))"
| "validate_fields_store validateDeps [] changes base errs h = h"
| "validate_fields_store validateDeps ((field, def) # rest) changes base errs h =
     (let h =
            (if ReadOnly def then
               (case fmlookup (doc_at h changes) field of
                  Some _ \<Rightarrow> addFieldError_store errs field (RErrStr ''read-only'') h
                | None \<Rightarrow> h)
             else h);
          h =
            (if Required def then
               (case fmlookup (doc_at h changes) field of
                  Some value \<Rightarrow>
                    if value = RNil \<or> value = RTombstone
                    then addFieldError_store errs field (RErrStr ''required'') h else h
                | None \<Rightarrow>
                    (case fmlookup (doc_at h base) field of
                       None \<Rightarrow> addFieldError_store errs field (RErrStr ''required'') h
                     | Some value \<Rightarrow>
                         if value = RNil then addFieldError_store errs field (RErrStr ''required'') h
                         else h))
             else h);
          h =
            (case Schema def of
               None \<Rightarrow> h
             | Some sub \<Rightarrow>
                 if fmlookup (doc_at h changes) field = None \<and> fmlookup (doc_at h base) field = None
                 then
                   (let (empty, h) = new_doc h;
                        ((subDoc, subErrs), h) =
                          validate_store validateDeps sub empty empty False h
                    in if len (errs_at h subErrs) > 0
                       then addFieldError_store errs field (RErrMap subErrs) h else h)
                 else h)
      in validate_fields_store validateDeps rest changes base errs h)"
| "validate_doc_store validateDeps s changes base [] doc errs h = h"
| "validate_doc_store validateDeps s changes base ((field, value) # rest) doc errs h =
     (let h =
        (case map_of (Fields s) field of
           None \<Rightarrow> addFieldError_store errs field (RErrStr ''invalid field'') h
         | Some def \<Rightarrow>
             (case Schema def of
                Some sub \<Rightarrow>
                  (let (subChanges, h) = new_doc h;
                       (subBase, h) = new_doc h;
                       (subChanges, h) =
                         (case fmlookup (doc_at h changes) field of
                            Some (RMap m) \<Rightarrow> (m, h)
                          | Some _ \<Rightarrow>
                              (subChanges, addFieldError_store errs field (RErrStr ''not a dict'') h)
                          | None \<Rightarrow> (subChanges, h));
                       (subBase, h) =
                         (case fmlookup (doc_at h base) field of
                            Some (RMap m) \<Rightarrow> (m, h)
                          | Some _ \<Rightarrow>
                              (subBase, addFieldError_store errs field (RErrStr ''not a dict'') h)
                          | None \<Rightarrow> (subBase, h));
                       ((subDoc, subErrs), h) =
                         validate_store validateDeps sub subChanges subBase False h
                   in if len (errs_at h subErrs) > 0
                      then addFieldError_store errs field (RErrMap subErrs) h
                      else store_field doc field
                             (case subDoc of Some d \<Rightarrow> RMap d | None \<Rightarrow> RNil) h)
              | None \<Rightarrow>
                  (case Validator def of
                     Some v \<Rightarrow>
                       (case v value of
                          Inl err \<Rightarrow> addFieldError_store errs field (RErrStr err) h
                        | Inr value \<Rightarrow> store_field doc field value h)
                   | None \<Rightarrow> h)))
      in validate_doc_store validateDeps s changes base rest doc errs h)"
  by pat_completeness auto
termination
proof -
  have sub: "size sub < size d" if "Schema d = Some sub" for d :: "rval field_of" and sub
    using that by (cases d) simp
  have fs: "size_list (size_prod (\<lambda>_. 0) size) (Fields s) < size s" for s :: "rval schema_of"
    by (cases s) simp
  have look: "size d < Suc (size_list (size_prod (\<lambda>_. 0) size) fs)"
    if "map_of fs field = Some d" for fs :: "(string \<times> rval field_of) list" and field d
    using that by (induction fs) (auto split: if_splits)
  have look_sub: "size sub < size s"
    if "map_of (Fields s) field = Some d" and "Schema d = Some sub"
    for s :: "rval schema_of" and field d sub
    using look [OF that(1)] sub [OF that(2)] fs [of s] by simp
  show ?thesis
    by (relation "measures
          [\<lambda>x. case x of
              Inl (_, s, _) \<Rightarrow> size s
            | Inr (Inl (_, fs, _)) \<Rightarrow> size_list (size_prod (\<lambda>_. 0) size) fs
            | Inr (Inr (_, s, _)) \<Rightarrow> size s,
           \<lambda>x. case x of Inl _ \<Rightarrow> 1 | Inr _ \<Rightarrow> 0,
           \<lambda>x. case x of Inr (Inr (_, _, _, _, kvs, _)) \<Rightarrow> length kvs | _ \<Rightarrow> 0]")
       (auto dest: sub look_sub simp: fs)
qed

declare validate_store.simps [simp del]

text \<open>
  \<open>grows n m h h'\<close>: going from \<open>h\<close> to \<open>h'\<close>, the first \<open>n\<close> map objects and the first
  \<open>m\<close> error maps are unchanged and no object is lost.
\<close>

definition grows :: "nat \<Rightarrow> nat \<Rightarrow> store \<Rightarrow> store \<Rightarrow> bool" where
  "grows n m h h' \<longleftrightarrow>
     take n (docs h') = take n (docs h) \<and> length (docs h) \<le> length (docs h') \<and>
     take m (errors h') = take m (errors h) \<and> length (errors h) \<le> length (errors h')"


definition Prepare_frame :: "deep_equal \<Rightarrow> rval schema_of \<Rightarrow> bool" where
  "Prepare_frame D s \<longleftrightarrow>
     (\<forall>payload original replace h r h'.
        Prepare_store D s payload original replace h = (r, h') \<longrightarrow>
        grows (length (docs h)) (length (errors h)) h h' \<and>
        (\<forall>c b. r = Inr (c, b) \<longrightarrow>
           length (docs h) \<le> c \<and> length (docs h) \<le> b \<and> c \<noteq> b \<and>
           c < length (docs h') \<and> b < length (docs h')))"


definition validate_frame :: "dependencies_store \<Rightarrow> rval schema_of \<Rightarrow> bool" where
  "validate_frame vd s \<longleftrightarrow>
     (\<forall>changes base isRoot h doc errs h'.
        validate_store vd s changes base isRoot h = ((doc, errs), h') \<longrightarrow>
        grows (length (docs h)) (length (errors h)) h h' \<and>
        length (errors h) \<le> errs \<and> errs < length (errors h') \<and>
        (\<forall>d. doc = Some d \<longrightarrow> length (docs h) \<le> d \<and> d < length (docs h')))"


definition same_value :: deep_equal where
  "same_value h a b \<longleftrightarrow> a = b"

definition no_dependencies_store :: dependencies_store where
  "no_dependencies_store h s changes doc path = fmempty"

definition nested_schema_store :: "rval schema_of" where
  "nested_schema_store =
     MkSchema
       [(''sub'', MkField False False False RNil None None None
           (Some (MkSchema [(''x'', MkField True False False RNil None None None None)] 0 0)))]
       0 0"

definition example_store :: store where
  "example_store =
     \<lparr>docs = [fmupd ''x'' (RInt 1) fmempty, fmupd ''sub'' (RMap 0) fmempty], errors = []\<rparr>"


section \<open>Size bounds of validated documents\<close>

lemma Validate_example_schema:
  "Validate no_dependencies example_schema (fmupd ''a'' (VInt 1) fmempty) fmempty =
     (Some (fmupd ''a'' (VInt 1) fmempty), fmempty)"
  by code_simp

text \<open>
  Claim C1. Whatever the schema, the change-set and the base-set, \<open>Validate\<close> returns either
  no document, and then the last error filed under the root key (the empty string) is one of
  the two size errors, or a document whose field count is at least \<open>MinLen\<close> and, when
  \<open>MaxLen\<close> is positive, at most \<open>MaxLen\<close>. A document is never returned when a size
  bound is violated.
\<close>

theorem Validate_size_bounds:
  "case Validate vd s changes base of
     (None, errs) \<Rightarrow>
       last (errs_index errs []) = ErrStr (''has fewer properties than '' @ Sprintf_d (MinLen s)) \<or>
       last (errs_index errs []) = ErrStr (''has more properties than '' @ Sprintf_d (MaxLen s))
   | (Some doc, errs) \<Rightarrow> MinLen s \<le> len doc \<and> (0 < MaxLen s \<longrightarrow> len doc \<le> MaxLen s)"
  by (auto simp add: Validate_def Let_def addFieldError_def errs_index_def split: prod.splits)

theorem Validate_size_bounds_witness:
  "0 < MaxLen example_schema \<and>
   (case Validate no_dependencies example_schema (fmupd ''a'' (VInt 1) fmempty) fmempty of
      (None, errs) \<Rightarrow> False
    | (Some doc, errs) \<Rightarrow> MinLen example_schema \<le> len doc \<and> len doc \<le> MaxLen example_schema)"
  using Validate_size_bounds [where vd = no_dependencies and s = example_schema
      and changes = "fmupd ''a'' (VInt 1) fmempty" and base = fmempty]
  unfolding Validate_example_schema by (simp add: example_schema_def)

section \<open>Errors and backend mutations\<close>

text \<open>
  Claim C2 says that no backend mutation follows an error response. The handlers for DELETE
  send the error of a failed lookup and go on: on a collection the backend's Clear is called
  all the same, on an item its Delete. The evaluation below is that failing request.
\<close>

theorem DELETE_mutates_after_lookup_error:
  "handleListRequestDELETE example_request failed_lookup_route =
     [SendError (OtherError ''bad lookup''), CallClear 0, SetHeader ''X-Total'' ''3'',
      Send 204 (Some fmempty)] \<and>
   handleItemRequestDELETE example_request failed_lookup_route =
     [SendError (OtherError ''bad lookup''), CallFind 0 1 1, CallDelete (Some example_item),
      Send 204 (Some fmempty)]"
  by code_simp

section \<open>Replace without an original\<close>

text \<open>
  Claim C5 says that \<open>Prepare\<close> with \<open>replace = true\<close> and no original always panics. The
  check sits inside the loop over the schema's fields, so a schema without fields returns
  normally: the evaluation below is that call.
\<close>

theorem Prepare_replace_without_original_empty_schema:
  "Prepare empty_schema (fmupd ''name'' (VStr ''x'') fmempty) None True =
     Inr (fmupd ''name'' (VStr ''x'') fmempty, fmempty)"
  by code_simp

lemma Prepare_replace_without_original_panics:
  "Fields s \<noteq> [] \<Longrightarrow>
   Prepare s payload None True = Inl ''Cannot use replace=true without original''"
  by (cases "Fields s") auto

section \<open>Sub-documents of the original\<close>

text \<open>
  Claim C6 says that the recursive \<open>Prepare\<close> of a nested schema runs against the
  sub-document that the original holds under the field. The code takes the sub-document only
  when the original holds a pointer to a map; for a plain map, which is what \<open>Prepare\<close> and
  \<open>Validate\<close> themselves store, it runs against an empty original. The evaluation below is
  that call: the unchanged sub-field \<open>x\<close> is reported as a change and the base loses it.
\<close>

theorem Prepare_nested_ignores_sub_original:
  "Prepare nested_schema
     (fmupd ''sub'' (VMap (fmupd ''x'' (VInt 1) fmempty)) fmempty)
     (Some (fmupd ''sub'' (VMap (fmupd ''x'' (VInt 1) fmempty)) fmempty)) False =
   Inr (fmupd ''sub'' (VMap (fmupd ''x'' (VInt 1) fmempty)) fmempty,
        fmupd ''sub'' (VMap fmempty) fmempty)"
  by code_simp

lemma Prepare_nested_pointer_sub_original:
  "Prepare nested_schema
     (fmupd ''sub'' (VMap (fmupd ''x'' (VInt 1) fmempty)) fmempty)
     (Some (fmupd ''sub'' (VMapPtr (fmupd ''x'' (VInt 1) fmempty)) fmempty)) False =
   Inr (fmupd ''sub'' (VMap fmempty) fmempty,
        fmupd ''sub'' (VMap (fmupd ''x'' (VInt 1) fmempty)) fmempty)"
  by code_simp

section \<open>Item GET\<close>

lemma example_route_found:
  "lookup example_route = (7, nil) \<and>
   handler_Find example_route 7 1 1 = (Some [example_item], nil)"
  by (simp add: example_route_def)

text \<open>
  Claim C7, as amended. When the lookup resolves and the backend answers, an item GET is
  answered after one Find call: NotFound when no item matches; 304 without a body when the
  If-None-Match header equals the item's ETag; otherwise, when an If-Modified-Since header is
  present, 400 when it is not a valid date and 304 when the date is at or after the item's
  Updated time; and in every other case the item with status 200.
\<close>

theorem handleItemRequestGET_cases:
  assumes "lookup route = (l, nil)" and "handler_Find route l 1 1 = (Some Items, nil)"
  shows "handleItemRequestGET r route =
     [CallFind l 1 1,
      if Items = [] then SendError NotFoundError
      else if Header_Get r ''If-None-Match'' = Etag (hd Items) then Send 304 None
      else if Header_Get r ''If-Modified-Since'' = [] then SendItem 200 (Some (hd Items))
      else if snd (time_Parse r (Header_Get r ''If-Modified-Since'')) \<noteq> nil
        then SendError (Error 400 ''Invalid If-Modified-Since header'' None)
      else if Updated (hd Items) \<le> fst (time_Parse r (Header_Get r ''If-Modified-Since''))
        then Send 304 None
      else SendItem 200 (Some (hd Items))]"
  using assms by (auto simp add: handleItemRequestGET_def Let_def split: prod.splits)

theorem handleItemRequestGET_cases_witness:
  "lookup example_route = (7, nil) \<and>
   handler_Find example_route 7 1 1 = (Some [example_item], nil) \<and>
   handleItemRequestGET example_request example_route =
     [CallFind 7 1 1, SendItem 200 (Some example_item)]"
  using handleItemRequestGET_cases [of example_route 7 "[example_item]" example_request]
    example_route_found
  by (simp add: example_request_def example_item_def)

text \<open>
  The claim as stated fails on a request whose If-Modified-Since header is not a date: an
  item is found, its ETag differs from the (absent) If-None-Match header, no modification
  time is at or after its Updated time, and the answer is 400, not the item.
\<close>

theorem handleItemRequestGET_invalid_date:
  "handleItemRequestGET stale_date_request example_route =
     [CallFind 7 1 1, SendError (Error 400 ''Invalid If-Modified-Since header'' None)]"
  by code_simp

section \<open>Collection GET: a page without a limit\<close>





section \<open>OPTIONS on an item\<close>

text \<open>
  Claim C9 says that OPTIONS on an item lists DELETE exactly when the Delete flag is set. The
  code tests the Update flag for DELETE: with Update alone DELETE is listed, with Delete alone
  it is not. No backend call is made in either case.
\<close>

theorem OPTIONS_item_lists_DELETE_for_Update:
  "handleRoute (example_request\<lparr>Method := ''OPTIONS''\<rparr>) (item_route (\<lambda>m. m = Update)) =
     [SetHeader ''Allow-Patch'' ''application/json'', SetHeader ''Allow'' ''PATCH, DELETE''] \<and>
   handleRoute (example_request\<lparr>Method := ''OPTIONS''\<rparr>) (item_route (\<lambda>m. m = Delete)) =
     [SetHeader ''Allow'' []]"
  by code_simp

section \<open>Finite maps and iteration over them\<close>









section \<open>An unchanged payload\<close>














section \<open>Update mode never panics\<close>



section \<open>One field through the loop of Prepare\<close>








section \<open>Errors are only added\<close>











section \<open>Read-only fields\<close>








section \<open>Objects that a call leaves alone\<close>

lemma grows_refl: "grows n m h h"
  by (simp add: grows_def)

lemma grows_trans: "grows n m h1 h2 \<Longrightarrow> grows n m h2 h3 \<Longrightarrow> grows n m h1 h3"
  by (simp add: grows_def)

lemma grows_mono: "grows n m h h' \<Longrightarrow> n' \<le> n \<Longrightarrow> m' \<le> m \<Longrightarrow> grows n' m' h h'"
  unfolding grows_def
  by (metis (no_types, lifting) min.absorb2 min.commute take_take)

lemma grows_length: "grows n m h h' \<Longrightarrow> k \<le> length (docs h) \<Longrightarrow> k \<le> length (docs h')"
  by (simp add: grows_def)

lemma grows_length_errors:
  "grows n m h h' \<Longrightarrow> k \<le> length (errors h) \<Longrightarrow> k \<le> length (errors h')"
  by (simp add: grows_def)

lemma grows_store_field: "n \<le> a \<Longrightarrow> grows n m h (store_field a k v h)"
  by (simp add: grows_def store_field_def)

lemma grows_delete_field: "n \<le> a \<Longrightarrow> grows n m h (delete_field a k h)"
  by (simp add: grows_def delete_field_def)

lemma grows_new_doc:
  "new_doc h = (a, h') \<Longrightarrow> n \<le> length (docs h) \<Longrightarrow> grows n m h h'"
  by (auto simp: grows_def new_doc_def)

lemma new_doc_addr: "new_doc h = (a, h') \<Longrightarrow> a = length (docs h) \<and> length (docs h') = Suc a"
  by (auto simp: new_doc_def)

lemma grows_fold:
  assumes "\<And>x h. grows n m h (f x h)"
  shows "grows n m h (fold f xs h)"
proof (induction xs arbitrary: h)
  case Nil
  show ?case by (simp add: grows_refl)
next
  case (Cons x xs)
  show ?case
    using grows_trans [OF assms [of h x] Cons.IH [of "f x h"]] by simp
qed

lemma grows_prepare_value_store:
  assumes "n \<le> changes" and "n \<le> base"
  shows "grows n m h (prepare_value_store D field d found original replace changes base h)"
proof (cases original)
  case None
  with assms show ?thesis
    unfolding prepare_value_store_def
    by (auto split: option.splits intro!: grows_store_field grows_refl)
next
  case (Some orig)
  define h1 where "h1 =
                 (case found of
                    Some value \<Rightarrow>
                      (case Validator d of
                         Some v \<Rightarrow>
                           (case v value of
                              Inl err \<Rightarrow> store_field changes field value h
                            | Inr validated \<Rightarrow>
                                (case fmlookup (doc_at h orig) field of
                                   None \<Rightarrow> store_field changes field validated h
                                 | Some oValue \<Rightarrow>
                                     if \<not> D h validated oValue
                                     then store_field changes field validated h else h))
                       | None \<Rightarrow>
                           (case fmlookup (doc_at h orig) field of
                              None \<Rightarrow> store_field changes field value h
                            | Some oValue \<Rightarrow>
                                if \<not> D h value oValue
                                then store_field changes field value h else h))
                  | None \<Rightarrow>
                      (case fmlookup (doc_at h orig) field of
                         Some oValue \<Rightarrow>
                           if replace then
                             (if Hidden d \<and> \<not> ReadOnly d then store_field changes field oValue h
                              else if Required d \<and> Default d \<noteq> RNil
                              then store_field changes field (Default d) h
                              else store_field changes field RTombstone h)
                           else h
                       | None \<Rightarrow> h))"
  have 1: "grows n m h h1"
    unfolding h1_def using assms(1)
    by (auto split: option.splits sum.splits intro!: grows_store_field grows_refl)
  have 2: "grows n m h1 (case fmlookup (doc_at h orig) field of
              Some oValue \<Rightarrow> store_field base field oValue h1 | None \<Rightarrow> h1)"
    using assms(2) by (auto split: option.splits intro!: grows_store_field grows_refl)
  have "prepare_value_store D field d found original replace changes base h =
      (case fmlookup (doc_at h orig) field of
              Some oValue \<Rightarrow> store_field base field oValue h1 | None \<Rightarrow> h1)"
    unfolding prepare_value_store_def h1_def Some by (simp add: Let_def)
  with grows_trans [OF 1 2] show ?thesis by simp
qed

lemma grows_prepare_hook_store:
  assumes "n \<le> changes" and "n \<le> base"
  shows "grows n m h (prepare_hook_store field d original changes base h)"
proof -
  have "grows n m h (delete_field changes field (store_field base field v h))" for v
    using grows_trans [OF grows_store_field [OF assms(2)] grows_delete_field [OF assms(1)]] .
  with assms show ?thesis
    unfolding prepare_hook_store_def
    by (auto split: option.splits simp: grows_store_field grows_refl)
qed

lemma Prepare_fields_store_Cons:
  "Prepare_fields_store D ((field, d) # rest) payload original replace changes base h =
     (if original = None \<and> replace then (Some ''Cannot use replace=true without original'', h)
      else
        let found = fmlookup (doc_at h payload) field;
            h = prepare_value_store D field d found original replace changes base h
        in case (case Schema d of
                   None \<Rightarrow> (None, h)
                 | Some sub \<Rightarrow> prepare_sub_store D field sub found original replace changes base h)
           of
             (Some p, h) \<Rightarrow> (Some p, h)
           | (None, h) \<Rightarrow>
               Prepare_fields_store D rest payload original replace changes base
                 (prepare_hook_store field d original changes base h))"
  unfolding Prepare_fields_store.simps prepare_sub_store_def ..

lemma Prepare_frame_grows:
  assumes "Prepare_frame D sub" and "Prepare_store D sub p so replace h0 = (r2, h2)"
    and "n \<le> length (docs h0)" and "m \<le> length (errors h0)"
  shows "grows n m h0 h2"
proof -
  from assms(1,2) have "grows (length (docs h0)) (length (errors h0)) h0 h2"
    unfolding Prepare_frame_def by simp
  then show ?thesis using assms(3,4) by (rule grows_mono)
qed

lemma sub_original_grows:
  assumes "(case original of
              None \<Rightarrow> (None, h)
            | Some orig \<Rightarrow>
                (let (empty, h) = new_doc h
                 in (Some (case fmlookup (doc_at h orig) field of
                             Some (RMapPtr su) \<Rightarrow> su
                           | _ \<Rightarrow> empty), h))) = (so, h1)"
    and "n \<le> length (docs h)"
  shows "grows n m h h1"
proof (cases original)
  case None
  with assms show ?thesis by (simp add: grows_refl)
next
  case (Some orig)
  obtain e h0 where e: "new_doc h = (e, h0)" by (cases "new_doc h")
  with assms(1) Some have "h1 = h0" by simp
  with grows_new_doc [OF e assms(2)] show ?thesis by simp
qed

lemma grows_store_both:
  "n \<le> changes \<Longrightarrow> n \<le> base \<Longrightarrow>
   grows n m h (store_field base field vb (store_field changes field vc h))"
  by (rule grows_trans [OF grows_store_field grows_store_field])

lemma grows_prepare_sub_store:
  assumes frame: "Prepare_frame D sub"
    and res: "prepare_sub_store D field sub found original replace changes base h = (r, h')"
    and n: "n \<le> changes" "n \<le> base" "n \<le> length (docs h)" and m: "m \<le> length (errors h)"
  shows "grows n m h h'"
proof -
  define e0 where "e0 = (case original of
                         None \<Rightarrow> (None, h)
                       | Some orig \<Rightarrow>
                           (let (empty, h) = new_doc h
                            in (Some (case fmlookup (doc_at h orig) field of
                                        Some (RMapPtr su) \<Rightarrow> su
                                      | _ \<Rightarrow> empty), h)))"
  obtain so h1 where so: "e0 = (so, h1)" by (cases e0)
  have g1: "grows n m h h1"
    using so [unfolded e0_def] n(3) by (rule sub_original_grows)
  have l1: "n \<le> length (docs h1)" "m \<le> length (errors h1)"
    using g1 n(3) m by (simp_all add: grows_def)
  have fin: "grows n m h h'"
    if p: "Prepare_store D sub p so replace h0 = (r2, h2)" and g0: "grows n m h1 h0"
      and alt: "h' = h2 \<or> (\<exists>c b.
             h' = store_field base field (RMap b) (store_field changes field (RMap c) h2))"
    for p h0 r2 h2
  proof -
    have l0: "n \<le> length (docs h0)" "m \<le> length (errors h0)"
      using g0 l1 by (simp_all add: grows_def)
    have "grows n m h0 h2"
      using frame p l0 by (rule Prepare_frame_grows)
    with g0 have "grows n m h1 h2" by (rule grows_trans)
    with g1 have 12: "grows n m h h2" by (rule grows_trans)
    from alt show ?thesis
    proof
      assume "h' = h2"
      with 12 show ?thesis by simp
    next
      assume "\<exists>c b. h' = store_field base field (RMap b) (store_field changes field (RMap c) h2)"
      then obtain c' b' where
        "h' = store_field base field (RMap b') (store_field changes field (RMap c') h2)"
        by auto
      with grows_store_both [OF n(1,2), of m h2 field "RMap b'" "RMap c'"]
      have "grows n m h2 h'" by simp
      with 12 show ?thesis by (rule grows_trans)
    qed
  qed
  have res': "(case found of
                     Some value \<Rightarrow>
                       (case value of
                          RMap subPayload \<Rightarrow>
                            (case Prepare_store D sub subPayload so replace h1 of
                               (Inl p, h) \<Rightarrow> (Some p, h)
                             | (Inr (c, b), h) \<Rightarrow>
                                 (None, store_field base field (RMap b)
                                          (store_field changes field (RMap c) h)))
                        | _ \<Rightarrow> (None, h1))
                   | None \<Rightarrow>
                       (let (empty, h) = new_doc h1
                        in case Prepare_store D sub empty so replace h of
                             (Inl p, h) \<Rightarrow> (Some p, h)
                           | (Inr (c, b), h) \<Rightarrow>
                               if len (doc_at h c) > 0 \<or> len (doc_at h b) > 0
                               then (None, store_field base field (RMap b)
                                             (store_field changes field (RMap c) h))
                               else (None, h))) = (r, h')"
    using res unfolding prepare_sub_store_def e0_def [symmetric] so by simp
  show ?thesis
  proof (cases found)
    case None
    obtain e h0 where e: "new_doc h1 = (e, h0)" by (cases "new_doc h1")
    have g0: "grows n m h1 h0"
      using e l1(1) by (rule grows_new_doc)
    obtain r2 h2 where p: "Prepare_store D sub e so replace h0 = (r2, h2)"
      by (cases "Prepare_store D sub e so replace h0")
    have "h' = h2 \<or> (\<exists>c b.
             h' = store_field base field (RMap b) (store_field changes field (RMap c) h2))"
      using res' unfolding None by (cases r2) (fastforce simp: e p split: if_splits)+
    with p g0 show ?thesis by (rule fin)
  next
    case (Some v)
    show ?thesis
    proof (cases "\<exists>sp. v = RMap sp")
      case True
      then obtain sp where sp: "v = RMap sp" ..
      obtain r2 h2 where p: "Prepare_store D sub sp so replace h1 = (r2, h2)"
        by (cases "Prepare_store D sub sp so replace h1")
      have "h' = h2 \<or> (\<exists>c b.
             h' = store_field base field (RMap b) (store_field changes field (RMap c) h2))"
        using res' unfolding Some sp by (cases r2) (fastforce simp: p)+
      with p grows_refl show ?thesis by (rule fin)
    next
      case False
      with res' have "h' = h1"
        unfolding Some by (cases v) auto
      with g1 show ?thesis by simp
    qed
  qed
qed

lemma grows_Prepare_fields_store:
  assumes sub: "\<And>f d sub. (f, d) \<in> set fs \<Longrightarrow> Schema d = Some sub \<Longrightarrow> Prepare_frame D sub"
    and res: "Prepare_fields_store D fs payload original replace changes base h = (r, h')"
    and n: "n \<le> changes" "n \<le> base" and l: "n \<le> length (docs h)" "m \<le> length (errors h)"
  shows "grows n m h h'"
  using sub res l
proof (induction fs arbitrary: h)
  case Nil
  then show ?case by (simp add: grows_refl)
next
  case (Cons x fs)
  obtain field d where x: "x = (field, d)" by (cases x)
  show ?case
  proof (cases "original = None \<and> replace")
    case True
    with Cons.prems(2) x have "h' = h" by simp
    then show ?thesis by (simp add: grows_refl)
  next
    case False
    define found where "found = fmlookup (doc_at h payload) field"
    define h1 where "h1 = prepare_value_store D field d found original replace changes base h"
    have g1: "grows n m h h1"
      unfolding h1_def using n by (rule grows_prepare_value_store)
    have l1: "n \<le> length (docs h1)" "m \<le> length (errors h1)"
      using g1 Cons.prems(3,4) by (simp_all add: grows_def)
    define st where "st = (case Schema d of
                   None \<Rightarrow> (None, h1)
                 | Some sub \<Rightarrow> prepare_sub_store D field sub found original replace changes base h1)"
    obtain r2 h2 where st2: "st = (r2, h2)" by (cases st)
    have g2: "grows n m h1 h2"
    proof (cases "Schema d")
      case None
      with st2 show ?thesis by (simp add: st_def grows_refl)
    next
      case (Some sub)
      have "Prepare_frame D sub"
        using Cons.prems(1) [of field d sub] x Some by simp
      moreover from st2 Some
      have "prepare_sub_store D field sub found original replace changes base h1 = (r2, h2)"
        by (simp add: st_def)
      ultimately show ?thesis using n l1 by (rule grows_prepare_sub_store)
    qed
    from g1 g2 have g12: "grows n m h h2" by (rule grows_trans)
    have eq: "Prepare_fields_store D (x # fs) payload original replace changes base h =
        (case r2 of
           Some p \<Rightarrow> (Some p, h2)
         | None \<Rightarrow> Prepare_fields_store D fs payload original replace changes base
                    (prepare_hook_store field d original changes base h2))"
      unfolding x Prepare_fields_store_Cons
      using False st2 [unfolded st_def h1_def found_def] by (auto simp add: Let_def)
    show ?thesis
    proof (cases r2)
      case (Some p)
      with eq Cons.prems(2) have "h' = h2" by simp
      with g12 show ?thesis by simp
    next
      case None
      define h3 where "h3 = prepare_hook_store field d original changes base h2"
      have g3: "grows n m h2 h3"
        unfolding h3_def using n by (rule grows_prepare_hook_store)
      from g12 g3 have g13: "grows n m h h3" by (rule grows_trans)
      then have l3: "n \<le> length (docs h3)" "m \<le> length (errors h3)"
        using Cons.prems(3,4) by (simp_all add: grows_def)
      from eq None Cons.prems(2)
      have "Prepare_fields_store D fs payload original replace changes base h3 = (r, h')"
        by (simp add: h3_def)
      with Cons.prems(1) have "grows n m h3 h'"
        using l3 by (intro Cons.IH) auto
      with g13 show ?thesis by (rule grows_trans)
    qed
  qed
qed

lemma Prepare_frame_step:
  assumes sub: "\<And>f d sub. (f, d) \<in> set (Fields s) \<Longrightarrow> Schema d = Some sub \<Longrightarrow> Prepare_frame D sub"
  shows "Prepare_frame D s"
  unfolding Prepare_frame_def
proof (intro allI impI)
  fix payload original replace h r h'
  assume res: "Prepare_store D s payload original replace h = (r, h')"
  define c where "c = length (docs h)"
  define h1 where "h1 = h\<lparr>docs := docs h @ [fmempty]\<rparr>"
  define h2 where "h2 = h1\<lparr>docs := docs h1 @ [fmempty]\<rparr>"
  have nd: "new_doc h = (c, h1)" "new_doc h1 = (Suc c, h2)"
    by (simp_all add: new_doc_def c_def h1_def h2_def)
  have g02: "grows c (length (errors h)) h h2"
    by (simp add: grows_def c_def h1_def h2_def)
  have len2: "length (docs h2) = Suc (Suc c)" "errors h2 = errors h"
    by (simp_all add: c_def h1_def h2_def)
  obtain r3 h3 where pf: "Prepare_fields_store D (Fields s) payload original replace c (Suc c) h2 = (r3, h3)"
    by (cases "Prepare_fields_store D (Fields s) payload original replace c (Suc c) h2")
  have g23: "grows c (length (errors h)) h2 h3"
    using sub pf by (rule grows_Prepare_fields_store) (simp_all add: len2)
  have len3: "Suc (Suc c) \<le> length (docs h3)"
    using g23 len2 by (simp add: grows_def)
  define h4 where "h4 = fold (\<lambda>(field, value) h.
                      if map_of (Fields s) field = None then store_field c field value h else h)
                (sorted_list_of_fmap (doc_at h3 payload)) h3"
  have g34: "grows c (length (errors h)) h3 h4"
    unfolding h4_def
    by (rule grows_fold) (auto simp: grows_refl grows_store_field)
  have eq: "Prepare_store D s payload original replace h =
      (case r3 of Some p \<Rightarrow> (Inl p, h3) | None \<Rightarrow> (Inr (c, Suc c), h4))"
    unfolding Prepare_store.simps by (simp add: nd pf h4_def split: option.splits)
  have g03: "grows c (length (errors h)) h h3"
    using g02 g23 by (rule grows_trans)
  have g04: "grows c (length (errors h)) h h4"
    using g03 g34 by (rule grows_trans)
  have len4: "Suc (Suc c) \<le> length (docs h4)"
    using g34 len3 by (simp add: grows_def)
  show "grows (length (docs h)) (length (errors h)) h h' \<and>
        (\<forall>c b. r = Inr (c, b) \<longrightarrow>
           length (docs h) \<le> c \<and> length (docs h) \<le> b \<and> c \<noteq> b \<and>
           c < length (docs h') \<and> b < length (docs h'))"
  proof (cases r3)
    case None
    with eq res have "r = Inr (c, Suc c)" "h' = h4" by simp_all
    with g04 len4 show ?thesis by (auto simp: c_def)
  next
    case (Some p)
    with eq res have "r = Inl p" "h' = h3" by simp_all
    with g03 show ?thesis by (simp add: c_def)
  qed
qed

lemma Prepare_frame_all: "Prepare_frame D s"
proof (induction s rule: measure_induct_rule [where f = size])
  case (less s)
  show ?case
  proof (rule Prepare_frame_step)
    fix f d sub
    assume "(f, d) \<in> set (Fields s)" and "Schema d = Some sub"
    then have "size sub < size s"
      by (cases s; cases d) (auto simp: less_Suc_eq_le dest!: size_list_estimation' [where f = "size_prod (\<lambda>_. 0) size" and y = "size sub"])
    then show "Prepare_frame D sub" by (rule less.IH)
  qed
qed

lemma grows_addFieldError_store: "m \<le> a \<Longrightarrow> grows n m h (addFieldError_store a k e h)"
  by (simp add: grows_def addFieldError_store_def)

lemma grows_new_errs:
  "new_errs h = (a, h') \<Longrightarrow> m \<le> length (errors h) \<Longrightarrow> grows n m h h'"
  by (auto simp: grows_def new_errs_def)

lemma grows_mergeFieldErrors_store: "m \<le> errs \<Longrightarrow> grows n m h (mergeFieldErrors_store errs me h)"
  unfolding mergeFieldErrors_store_def
  by (rule grows_fold) (auto simp: grows_def)

lemma validate_frame_grows:
  assumes "validate_frame vd sub" and "validate_store vd sub c b r h0 = ((doc, errs), h2)"
    and "n \<le> length (docs h0)" and "m \<le> length (errors h0)"
  shows "grows n m h0 h2"
proof -
  from assms(1,2) have "grows (length (docs h0)) (length (errors h0)) h0 h2"
    unfolding validate_frame_def by blast
  then show ?thesis using assms(3,4) by (rule grows_mono)
qed

lemma grows_validate_fields_store:
  assumes sub: "\<And>f d sub. (f, d) \<in> set fs \<Longrightarrow> Schema d = Some sub \<Longrightarrow> validate_frame vd sub"
    and m: "m \<le> errs" and l: "n \<le> length (docs h)" "m \<le> length (errors h)"
  shows "grows n m h (validate_fields_store vd fs changes base errs h)"
  using sub l
proof (induction fs arbitrary: h)
  case Nil
  show ?case by (simp add: grows_refl)
next
  case (Cons x fs)
  obtain field d where x: "x = (field, d)" by (cases x)
  define h1 where "h1 =
            (if ReadOnly d then
               (case fmlookup (doc_at h changes) field of
                  Some _ \<Rightarrow> addFieldError_store errs field (RErrStr ''read-only'') h
                | None \<Rightarrow> h)
             else h)"
  have g1: "grows n m h h1"
    unfolding h1_def using m
    by (auto simp: grows_refl grows_addFieldError_store split: option.splits)
  define h2 where "h2 =
            (if Required d then
               (case fmlookup (doc_at h1 changes) field of
                  Some value \<Rightarrow>
                    if value = RNil \<or> value = RTombstone
                    then addFieldError_store errs field (RErrStr ''required'') h1 else h1
                | None \<Rightarrow>
                    (case fmlookup (doc_at h1 base) field of
                       None \<Rightarrow> addFieldError_store errs field (RErrStr ''required'') h1
                     | Some value \<Rightarrow>
                         if value = RNil then addFieldError_store errs field (RErrStr ''required'') h1
                         else h1))
             else h1)"
  have g2: "grows n m h1 h2"
    unfolding h2_def using m
    by (auto simp: grows_refl grows_addFieldError_store split: option.splits)
  from g1 g2 have g02: "grows n m h h2" by (rule grows_trans)
  then have l2: "n \<le> length (docs h2)" "m \<le> length (errors h2)"
    using Cons.prems(2,3) by (simp_all add: grows_def)
  define h3 where "h3 =
            (case Schema d of
               None \<Rightarrow> h2
             | Some sub \<Rightarrow>
                 if fmlookup (doc_at h2 changes) field = None \<and> fmlookup (doc_at h2 base) field = None
                 then
                   (let (empty, h) = new_doc h2;
                        ((subDoc, subErrs), h) = validate_store vd sub empty empty False h
                    in if len (errs_at h subErrs) > 0
                       then addFieldError_store errs field (RErrMap subErrs) h else h)
                 else h2)"
  have g3: "grows n m h2 h3"
  proof (cases "Schema d")
    case None
    then show ?thesis by (simp add: h3_def grows_refl)
  next
    case (Some sub)
    have fr: "validate_frame vd sub"
      using Cons.prems(1) [of field d sub] x Some by simp
    obtain e h0 where e: "new_doc h2 = (e, h0)" by (cases "new_doc h2")
    have g0: "grows n m h2 h0" using e l2(1) by (rule grows_new_doc)
    then have l0: "n \<le> length (docs h0)" "m \<le> length (errors h0)"
      using l2 by (simp_all add: grows_def)
    obtain sd se h4 where v: "validate_store vd sub e e False h0 = ((sd, se), h4)"
      by (cases "validate_store vd sub e e False h0") auto
    have g4: "grows n m h0 h4" using fr v l0 by (rule validate_frame_grows)
    with g0 have g24: "grows n m h2 h4" by (rule grows_trans)
    have g5: "grows n m h4 (addFieldError_store errs field (RErrMap se) h4)"
      using m by (rule grows_addFieldError_store)
    with g24 have g25: "grows n m h2 (addFieldError_store errs field (RErrMap se) h4)"
      by (rule grows_trans)
    show ?thesis
      unfolding h3_def Some using g24 g25
      by (simp add: e v grows_refl)
  qed
  from g02 g3 have g03: "grows n m h h3" by (rule grows_trans)
  then have l3: "n \<le> length (docs h3)" "m \<le> length (errors h3)"
    using Cons.prems(2,3) by (simp_all add: grows_def)
  have eq: "validate_fields_store vd (x # fs) changes base errs h =
      validate_fields_store vd fs changes base errs h3"
    unfolding x validate_fields_store.simps h3_def h2_def h1_def Let_def ..
  have "grows n m h3 (validate_fields_store vd fs changes base errs h3)"
    using Cons.prems(1) l3 by (intro Cons.IH) auto
  with g03 show ?case unfolding eq by (rule grows_trans)
qed

lemma grows_validate_doc_store:
  assumes sub: "\<And>f d sub. map_of (Fields s) f = Some d \<Longrightarrow> Schema d = Some sub \<Longrightarrow> validate_frame vd sub"
    and nm: "n \<le> doc" "m \<le> errs" and l: "n \<le> length (docs h)" "m \<le> length (errors h)"
  shows "grows n m h (validate_doc_store vd s changes base kvs doc errs h)"
  using l
proof (induction kvs arbitrary: h)
  case Nil
  show ?case by (simp add: grows_refl)
next
  case (Cons x kvs)
  obtain field v where x: "x = (field, v)" by (cases x)
  have step: "\<exists>h1. grows n m h h1 \<and>
      validate_doc_store vd s changes base (x # kvs) doc errs h =
      validate_doc_store vd s changes base kvs doc errs h1"
  proof (cases "map_of (Fields s) field")
    case None
    then have "validate_doc_store vd s changes base (x # kvs) doc errs h =
      validate_doc_store vd s changes base kvs doc errs
        (addFieldError_store errs field (RErrStr ''invalid field'') h)"
      by (simp add: x)
    with grows_addFieldError_store [OF nm(2)] show ?thesis by blast
  next
    case d: (Some d)
    show ?thesis
    proof (cases "Schema d")
      case None
      show ?thesis
      proof (cases "Validator d")
        case None
        with d \<open>Schema d = None\<close>
        have "validate_doc_store vd s changes base (x # kvs) doc errs h =
          validate_doc_store vd s changes base kvs doc errs h"
          by (simp add: x)
        with grows_refl show ?thesis by blast
      next
        case (Some va)
        show ?thesis
        proof (cases "va v")
          case (Inl err)
          with d \<open>Schema d = None\<close> Some
          have "validate_doc_store vd s changes base (x # kvs) doc errs h =
            validate_doc_store vd s changes base kvs doc errs
              (addFieldError_store errs field (RErrStr err) h)"
            by (simp add: x)
          with grows_addFieldError_store [OF nm(2)] show ?thesis by blast
        next
          case (Inr w)
          with d \<open>Schema d = None\<close> Some
          have "validate_doc_store vd s changes base (x # kvs) doc errs h =
            validate_doc_store vd s changes base kvs doc errs (store_field doc field w h)"
            by (simp add: x)
          with grows_store_field [OF nm(1)] show ?thesis by blast
        qed
      qed
    next
      case sub: (Some sub)
      have fr: "validate_frame vd sub" using d sub by (rule assms(1))
      obtain sc0 ha where a: "new_doc h = (sc0, ha)" by (cases "new_doc h")
      have ga: "grows n m h ha" using a Cons.prems(1) by (rule grows_new_doc)
      then have la: "n \<le> length (docs ha)" "m \<le> length (errors ha)"
        using Cons.prems by (simp_all add: grows_def)
      obtain sb0 hb where b: "new_doc ha = (sb0, hb)" by (cases "new_doc ha")
      have gb: "grows n m ha hb" using b la(1) by (rule grows_new_doc)
      define c1 where "c1 =
                         (case fmlookup (doc_at hb changes) field of
                            Some (RMap m) \<Rightarrow> (m, hb)
                          | Some _ \<Rightarrow>
                              (sc0, addFieldError_store errs field (RErrStr ''not a dict'') hb)
                          | None \<Rightarrow> (sc0, hb))"
      obtain sc hc where c: "c1 = (sc, hc)" by (cases c1)
      have gc: "grows n m hb hc"
        using c [unfolded c1_def] nm(2)
        by (auto simp: grows_refl grows_addFieldError_store split: option.splits rval.splits)
      define c2 where "c2 =
                         (case fmlookup (doc_at hc base) field of
                            Some (RMap m) \<Rightarrow> (m, hc)
                          | Some _ \<Rightarrow>
                              (sb0, addFieldError_store errs field (RErrStr ''not a dict'') hc)
                          | None \<Rightarrow> (sb0, hc))"
      obtain sb hd where dd: "c2 = (sb, hd)" by (cases c2)
      have gd: "grows n m hc hd"
        using dd [unfolded c2_def] nm(2)
        by (auto simp: grows_refl grows_addFieldError_store split: option.splits rval.splits)
      have g0d: "grows n m h hd"
        using grows_trans [OF grows_trans [OF grows_trans [OF ga gb] gc] gd] .
      then have ld: "n \<le> length (docs hd)" "m \<le> length (errors hd)"
        using Cons.prems by (simp_all add: grows_def)
      obtain sd se he where v: "validate_store vd sub sc sb False hd = ((sd, se), he)"
        by (cases "validate_store vd sub sc sb False hd") auto
      have ge: "grows n m hd he" using fr v ld by (rule validate_frame_grows)
      with g0d have g0e: "grows n m h he" by (rule grows_trans)
      define hf where "hf =
          (if len (errs_at he se) > 0
           then addFieldError_store errs field (RErrMap se) he
           else store_field doc field (case sd of Some d \<Rightarrow> RMap d | None \<Rightarrow> RNil) he)"
      have "grows n m he hf"
        unfolding hf_def using nm by (simp add: grows_addFieldError_store grows_store_field)
      with g0e have g0f: "grows n m h hf" by (rule grows_trans)
      have "validate_doc_store vd s changes base (x # kvs) doc errs h =
          validate_doc_store vd s changes base kvs doc errs hf"
        unfolding x validate_doc_store.simps
        using d sub a b c [unfolded c1_def] dd [unfolded c2_def] v
        by (simp add: hf_def Let_def)
      with g0f show ?thesis by blast
    qed
  qed
  then obtain h1 where g1: "grows n m h h1" and
    eq: "validate_doc_store vd s changes base (x # kvs) doc errs h =
      validate_doc_store vd s changes base kvs doc errs h1"
    by blast
  from g1 Cons.prems have "n \<le> length (docs h1)" "m \<le> length (errors h1)"
    by (simp_all add: grows_def)
  then have "grows n m h1 (validate_doc_store vd s changes base kvs doc errs h1)"
    by (rule Cons.IH)
  with g1 show ?case unfolding eq by (rule grows_trans)
qed

lemma validate_frame_step:
  assumes sub: "\<And>f d sub. (f, d) \<in> set (Fields s) \<Longrightarrow> Schema d = Some sub \<Longrightarrow> validate_frame vd sub"
  shows "validate_frame vd s"
  unfolding validate_frame_def
proof (intro allI impI)
  fix changes base isRoot h doc errs h'
  assume res: "validate_store vd s changes base isRoot h = ((doc, errs), h')"
  define n where "n = length (docs h)"
  define m where "m = length (errors h)"
  define h1 where "h1 = h\<lparr>docs := docs h @ [fmempty]\<rparr>"
  define h2 where "h2 = h1\<lparr>errors := errors h1 @ [fmempty]\<rparr>"
  have nd: "new_doc h = (n, h1)" "new_errs h1 = (m, h2)"
    by (simp_all add: new_doc_def new_errs_def n_def m_def h1_def h2_def)
  have g2: "grows n m h h2"
    by (simp add: grows_def n_def m_def h1_def h2_def)
  have l2: "n \<le> length (docs h2)" "m \<le> length (errors h2)"
    by (simp_all add: n_def m_def h1_def h2_def)
  have len2: "n < length (docs h2)" "m < length (errors h2)"
    by (simp_all add: n_def m_def h1_def h2_def)
  define h3 where "h3 = validate_fields_store vd (Fields s) changes base m h2"
  have g3: "grows n m h2 h3"
    unfolding h3_def using sub order_refl l2 by (rule grows_validate_fields_store)
  define h4 where "h4 = fold (\<lambda>(field, value) h. store_field n field value h)
                (sorted_list_of_fmap (doc_at h3 base)) h3"
  have g4: "grows n m h3 h4"
    unfolding h4_def by (rule grows_fold) (auto simp: grows_store_field)
  define h5 where "h5 = fold (\<lambda>(field, value) h.
                      if value = RTombstone then delete_field n field h
                      else store_field n field value h)
                (sorted_list_of_fmap (doc_at h4 changes)) h4"
  have g5: "grows n m h4 h5"
    unfolding h5_def by (rule grows_fold) (auto simp: grows_store_field grows_delete_field)
  define h6 where "h6 = (if isRoot then mergeFieldErrors_store m (vd h5 s changes n []) h5 else h5)"
  have g6: "grows n m h5 h6"
    unfolding h6_def by (simp add: grows_refl grows_mergeFieldErrors_store)
  have g26: "grows n m h2 h6"
    using grows_trans [OF grows_trans [OF grows_trans [OF g3 g4] g5] g6] .
  then have l6: "n \<le> length (docs h6)" "m \<le> length (errors h6)"
    using l2 by (simp_all add: grows_def)
  define h7 where "h7 = validate_doc_store vd s changes base (sorted_list_of_fmap (doc_at h6 n)) n m h6"
  have g7: "grows n m h6 h7"
    unfolding h7_def
  proof (rule grows_validate_doc_store [OF _ order_refl order_refl l6])
    fix f d sub
    assume "map_of (Fields s) f = Some d" and s: "Schema d = Some sub"
    then have "(f, d) \<in> set (Fields s)" by (simp add: map_of_SomeD)
    then show "validate_frame vd sub" using s by (rule assms)
  qed
  have g07: "grows n m h h7"
    using grows_trans [OF grows_trans [OF g2 g26] g7] .
  have len7: "n < length (docs h7)" "m < length (errors h7)"
    using g26 g7 len2 by (simp_all add: grows_def)
  have eq: "validate_store vd s changes base isRoot h =
      (if len (doc_at h7 n) < MinLen s
       then ((None, m),
             addFieldError_store m []
               (RErrStr (''has fewer properties than '' @ Sprintf_d (MinLen s))) h7)
       else if MaxLen s > 0 \<and> len (doc_at h7 n) > MaxLen s
       then ((None, m),
             addFieldError_store m []
               (RErrStr (''has more properties than '' @ Sprintf_d (MaxLen s))) h7)
       else ((Some n, m), h7))"
    unfolding validate_store.simps
    by (simp add: nd Let_def h7_def h6_def h5_def h4_def h3_def)
  have ga: "grows n m h (addFieldError_store m [] e h7)" for e
    using g07 grows_addFieldError_store [OF order_refl] by (rule grows_trans)
  have la: "m < length (errors (addFieldError_store m [] e h7))" for e
    using len7 by (simp add: addFieldError_store_def)
  from res [unfolded eq]
  show "grows (length (docs h)) (length (errors h)) h h' \<and>
        length (errors h) \<le> errs \<and> errs < length (errors h') \<and>
        (\<forall>d. doc = Some d \<longrightarrow> length (docs h) \<le> d \<and> d < length (docs h'))"
    using g07 ga la len7
    by (auto simp: n_def [symmetric] m_def [symmetric] split: if_splits)
qed

lemma validate_frame_all: "validate_frame vd s"
proof (induction s rule: measure_induct_rule [where f = size])
  case (less s)
  show ?case
  proof (rule validate_frame_step)
    fix f d sub
    assume "(f, d) \<in> set (Fields s)" and "Schema d = Some sub"
    then have "size sub < size s"
      by (cases s; cases d) (auto simp: less_Suc_eq_le dest!: size_list_estimation' [where f = "size_prod (\<lambda>_. 0) size" and y = "size sub"])
    then show "validate_frame vd sub" by (rule less.IH)
  qed
qed

lemma Prepare_store_example:
  "Prepare_store same_value nested_schema_store 1 (Some 1) False example_store =
     (Inr (2, 3),
      \<lparr>docs = [fmupd ''x'' (RInt 1) fmempty, fmupd ''sub'' (RMap 0) fmempty,
                fmupd ''sub'' (RMap 5) fmempty, fmupd ''sub'' (RMap 6) fmempty,
                fmempty, fmupd ''x'' (RInt 1) fmempty, fmempty],
        errors = []\<rparr>)"
  by code_simp

lemma validate_store_example:
  "validate_store no_dependencies_store nested_schema_store 1 1 True example_store =
     ((Some 2, 0),
      \<lparr>docs = [fmupd ''x'' (RInt 1) fmempty, fmupd ''sub'' (RMap 0) fmempty,
                fmupd ''sub'' (RMap 5) fmempty, fmempty, fmempty, fmupd ''x'' (RInt 1) fmempty],
        errors = [fmempty, fmempty]\<rparr>)"
  by code_simp


text \<open>
  Claim C10. \<open>Prepare\<close> and \<open>Validate\<close> write to no object that existed before the
  call: every map object and every error map of the store before the call is the same
  after it, so the payload, the original, and the change and base sets passed to
  \<open>Validate\<close>, with all they refer to, are unchanged. The change-set and the base-set
  returned by \<open>Prepare\<close> are two distinct objects allocated by the call, and so are the
  error map and, when one is returned, the document of \<open>Validate\<close>.
\<close>

theorem Prepare_Validate_frame:
  "(case Prepare_store DeepEqual s payload original replace h of
      (r, h') \<Rightarrow>
        take (length (docs h)) (docs h') = docs h \<and>
        take (length (errors h)) (errors h') = errors h \<and>
        (case r of
           Inl p \<Rightarrow> True
         | Inr (changes, base) \<Rightarrow>
             length (docs h) \<le> changes \<and> changes < length (docs h') \<and>
             length (docs h) \<le> base \<and> base < length (docs h') \<and> changes \<noteq> base)) \<and>
   (case validate_store vd s changes base isRoot h of
      ((doc, errs), h') \<Rightarrow>
        take (length (docs h)) (docs h') = docs h \<and>
        take (length (errors h)) (errors h') = errors h \<and>
        length (errors h) \<le> errs \<and> errs < length (errors h') \<and>
        (case doc of
           None \<Rightarrow> True
         | Some d \<Rightarrow> length (docs h) \<le> d \<and> d < length (docs h')))"
proof -
  obtain r h1 where p: "Prepare_store DeepEqual s payload original replace h = (r, h1)"
    by (cases "Prepare_store DeepEqual s payload original replace h")
  obtain doc errs h2 where v: "validate_store vd s changes base isRoot h = ((doc, errs), h2)"
    by (cases "validate_store vd s changes base isRoot h") auto
  from Prepare_frame_all [of DeepEqual s] p
  have 1: "grows (length (docs h)) (length (errors h)) h h1"
    and 2: "\<And>c b. r = Inr (c, b) \<Longrightarrow>
           length (docs h) \<le> c \<and> length (docs h) \<le> b \<and> c \<noteq> b \<and>
           c < length (docs h1) \<and> b < length (docs h1)"
    unfolding Prepare_frame_def by blast+
  from validate_frame_all [of vd s] v
  have 3: "grows (length (docs h)) (length (errors h)) h h2"
    and 4: "length (errors h) \<le> errs" "errs < length (errors h2)"
    and 5: "\<And>d. doc = Some d \<Longrightarrow> length (docs h) \<le> d \<and> d < length (docs h2)"
    unfolding validate_frame_def by blast+
  show ?thesis
    unfolding p v using 1 2 3 4 5
    by (auto simp: grows_def split: sum.splits option.splits)
qed

end
